theory Spec2Isabelle
  imports Complex_Main
begin

section \<open>Repository Visualiser: the procedural tree engine\<close>

text \<open>
  The development embeds the numeric core of the visualiser: the seeded generator, the
  metric mappings, the colour conversions, the recursive branch renderer, the particle
  life cycle and the handlers that switch repositories.  JavaScript numbers that the
  program keeps integral (the generator's seed, recursion depths, millisecond time stamps,
  colour channels) are integers here and all other finite numbers are reals, so that the
  results speak about the arithmetic the program denotes and not about the rounding of
  IEEE doubles; the one place where the rounding is part of the embedding is the
  arithmetic on the generator's seed, which can leave the integers that a double holds
  exactly.  Where the program can meet \<open>NaN\<close> or an infinity (metrics that come from
  outside, dates that do not parse) the numbers are of type \<open>num\<close> below.
\<close>

subsection \<open>JavaScript numbers with NaN and infinities\<close>

datatype num = NaN | NegInf | PosInf | Num real

text \<open>
  The operations follow IEEE arithmetic as JavaScript exposes it; the sign of zero is not
  represented, and a division by zero is taken as a division by \<open>+0\<close>.
\<close>

fun js_neg :: "num \<Rightarrow> num" where
  "js_neg NaN = NaN"
| "js_neg NegInf = PosInf"
| "js_neg PosInf = NegInf"
| "js_neg (Num a) = Num (- a)"

fun js_add :: "num \<Rightarrow> num \<Rightarrow> num" where
  "js_add NaN b = NaN"
| "js_add a NaN = NaN"
| "js_add PosInf NegInf = NaN"
| "js_add NegInf PosInf = NaN"
| "js_add PosInf b = PosInf"
| "js_add a PosInf = PosInf"
| "js_add NegInf b = NegInf"
| "js_add a NegInf = NegInf"
| "js_add (Num a) (Num b) = Num (a + b)"

definition js_sub :: "num \<Rightarrow> num \<Rightarrow> num" where
  "js_sub a b = js_add a (js_neg b)"

definition js_inf :: "bool \<Rightarrow> num" where
  "js_inf positive = (if positive then PosInf else NegInf)"

fun js_mul :: "num \<Rightarrow> num \<Rightarrow> num" where
  "js_mul NaN b = NaN"
| "js_mul a NaN = NaN"
| "js_mul (Num a) (Num b) = Num (a * b)"
| "js_mul (Num a) PosInf = (if a = 0 then NaN else js_inf (a > 0))"
| "js_mul (Num a) NegInf = (if a = 0 then NaN else js_inf (a < 0))"
| "js_mul PosInf (Num b) = (if b = 0 then NaN else js_inf (b > 0))"
| "js_mul NegInf (Num b) = (if b = 0 then NaN else js_inf (b < 0))"
| "js_mul PosInf PosInf = PosInf"
| "js_mul NegInf NegInf = PosInf"
| "js_mul PosInf NegInf = NegInf"
| "js_mul NegInf PosInf = NegInf"

fun js_div :: "num \<Rightarrow> num \<Rightarrow> num" where
  "js_div NaN b = NaN"
| "js_div a NaN = NaN"
| "js_div (Num a) (Num b) =
     (if b = 0 then (if a = 0 then NaN else js_inf (a > 0)) else Num (a / b))"
| "js_div (Num a) PosInf = Num 0"
| "js_div (Num a) NegInf = Num 0"
| "js_div PosInf (Num b) = js_inf (b \<ge> 0)"
| "js_div NegInf (Num b) = js_inf (b < 0)"
| "js_div a b = NaN"

text \<open>A comparison with \<open>NaN\<close> on either side is false.\<close>

fun js_lt :: "num \<Rightarrow> num \<Rightarrow> bool" where
  "js_lt NaN b = False"
| "js_lt a NaN = False"
| "js_lt PosInf b = False"
| "js_lt a NegInf = False"
| "js_lt NegInf b = True"
| "js_lt a PosInf = True"
| "js_lt (Num a) (Num b) = (a < b)"

definition js_gt :: "num \<Rightarrow> num \<Rightarrow> bool" where
  "js_gt a b = js_lt b a"

text \<open>\<open>Math.min\<close> and \<open>Math.max\<close> return \<open>NaN\<close> as soon as one argument is \<open>NaN\<close>.\<close>

definition Math_min :: "num \<Rightarrow> num \<Rightarrow> num" where
  "Math_min a b = (if a = NaN \<or> b = NaN then NaN else if js_lt b a then b else a)"

definition Math_max :: "num \<Rightarrow> num \<Rightarrow> num" where
  "Math_max a b = (if a = NaN \<or> b = NaN then NaN else if js_lt a b then b else a)"

fun Math_floor :: "num \<Rightarrow> num" where
  "Math_floor (Num a) = Num (of_int \<lfloor>a\<rfloor>)"
| "Math_floor a = a"

fun Math_log10 :: "num \<Rightarrow> num" where
  "Math_log10 NaN = NaN"
| "Math_log10 NegInf = NaN"
| "Math_log10 PosInf = PosInf"
| "Math_log10 (Num a) = (if a < 0 then NaN else if a = 0 then NegInf else Num (log 10 a))"

text \<open>
  \<open>a || b\<close> on numbers: \<open>NaN\<close> and zero are falsy.  A field that is absent from a record
  reads as \<open>undefined\<close>, which is falsy too and turns into \<open>NaN\<close> in arithmetic, so that an
  absent numeric field is represented by \<open>NaN\<close>.
\<close>

definition js_or :: "num \<Rightarrow> num \<Rightarrow> num" where
  "js_or a b = (if a = NaN \<or> a = Num 0 then b else a)"

text \<open>
  The remainder operator truncates towards zero: the result takes the sign of the
  dividend.  On integers and on reals:
\<close>

definition js_rem :: "int \<Rightarrow> int \<Rightarrow> int" where
  "js_rem a b = sgn a * (\<bar>a\<bar> mod \<bar>b\<bar>)"

definition js_fmod :: "real \<Rightarrow> real \<Rightarrow> real" where
  "js_fmod a b = sgn a * (\<bar>a\<bar> - \<bar>b\<bar> * of_int \<lfloor>\<bar>a\<bar> / \<bar>b\<bar>\<rfloor>)"

text \<open>\<open>Math.round\<close> rounds halves upwards.\<close>

definition Math_round :: "real \<Rightarrow> int" where
  "Math_round a = \<lfloor>a + 1 / 2\<rfloor>"

subsection \<open>SeededRandom\<close>

record SeededRandom =
  seed :: int

definition mkRandom :: "int \<Rightarrow> SeededRandom" where
  "mkRandom s = \<lparr>seed = s\<rparr>"

text \<open>
  The seed is a double of the program that holds an integer.  An integer of magnitude up
  to \<open>2 ^ 53\<close> is a double; a larger one is rounded to the nearest integer with 53
  significant binary digits, the even one of two that are equally near.  \<open>bitLength\<close> is
  the number of binary digits of a natural number, and \<open>roundDouble\<close> the rounding of the
  exact result of an addition or a multiplication of integers.  The range of the exponent
  is not represented: a product that rounds to \<open>2 ^ 1024\<close> or more, which is \<open>Infinity\<close>
  in the program (the seed is \<open>NaN\<close> from then on), is reached only from seeds of more than
  three hundred decimal digits.
\<close>

fun bitLength :: "nat \<Rightarrow> nat" where
  "bitLength n = (if n = 0 then 0 else Suc (bitLength (n div 2)))"

declare bitLength.simps [simp del]

definition roundDouble :: "int \<Rightarrow> int" where
  "roundDouble n =
     (if \<bar>n\<bar> \<le> 2 ^ 53 then n
      else (let e = bitLength (nat \<bar>n\<bar>) - 53;
                q = \<bar>n\<bar> div 2 ^ e;
                r = \<bar>n\<bar> mod 2 ^ e;
                m = (if 2 * r > 2 ^ e \<or> (2 * r = 2 ^ e \<and> odd q) then q + 1 else q)
            in sgn n * (m * 2 ^ e)))"

text \<open>
  \<open>next()\<close> stores the new seed and returns it divided by the modulus.  The product and
  the sum are rounded as the doubles round them; the remainder of two doubles is exact.
  The value returned is the quotient as a real number; the program returns the double
  nearest to it.
\<close>

definition rnd_next :: "SeededRandom \<Rightarrow> real \<times> SeededRandom" where
  "rnd_next r =
     (let s = js_rem (roundDouble (roundDouble (seed r * 9301) + 49297)) 233280
      in (real_of_int s / 233280, r\<lparr>seed := s\<rparr>))"


text \<open>
  The master seed of a tree (\<open>drawTree\<close>): the sum of the character codes of the
  repository's full name.  A name is a string of characters below 256, which covers the
  names that GitHub admits; the code of a character is then its UTF-16 code unit.
\<close>

definition seedOf :: "string \<Rightarrow> int" where
  "seedOf fullName = foldl (\<lambda>acc ch. acc + of_char ch) 0 fullName"

subsection \<open>Health\<close>

text \<open>
  A \<open>Date\<close> holds a time value in milliseconds, or \<open>NaN\<close> when it was built from a
  string that does not parse.  \<open>new Date()\<close>, the current time, is always valid and is
  the first argument of \<open>calculateHealth\<close> here.
\<close>

datatype jsdate = InvalidDate | Time int

fun timeValue :: "jsdate \<Rightarrow> num" where
  "timeValue InvalidDate = NaN"
| "timeValue (Time t) = Num (of_int t)"

definition calculateHealth :: "int \<Rightarrow> jsdate \<Rightarrow> real" where
  "calculateHealth now lastPush =
     (let daysSinceLastPush =
            js_div (js_sub (Num (of_int now)) (timeValue lastPush)) (Num (1000 * 60 * 60 * 24))
      in if js_lt daysSinceLastPush (Num 30) then 1.0
         else if js_lt daysSinceLastPush (Num 90) then 0.8
         else if js_lt daysSinceLastPush (Num 180) then 0.6
         else if js_lt daysSinceLastPush (Num 365) then 0.4
         else 0.2)"

subsection \<open>Metric mapping in \<open>drawTree\<close>\<close>

text \<open>
  The repository record as the collaborators supply it.  The numeric fields come from
  outside (the mock table, the GitHub API, the local cache), hence their type \<open>num\<close>.
\<close>

record RepoMetrics =
  fullName :: string
  language :: string
  lastPush :: jsdate
  commitCount :: num
  repoSize :: num
  stars :: num
  forks :: num
  age :: num

text \<open>
  What \<open>drawTree\<close> computes from the record before it draws, and hands over to
  \<open>drawAura\<close>, \<open>drawBranch\<close> and \<open>drawRoots\<close>: \<open>progress\<close> is the growth progress
  and \<open>animationTime\<close> the animation clock, both finite.
\<close>

record TreeParams =
  tp_seed :: int
  tp_health :: real
  tp_maxDepth :: num
  tp_baseTrunkLength :: num
  tp_trunkLength :: num
  tp_stars :: num
  tp_forks :: num
  tp_commitDensity :: num
  tp_ageMultiplier :: num
  tp_sizeSpread :: num
  tp_windOffset :: real
  tp_glowIntensity :: real

definition treeParams :: "int \<Rightarrow> RepoMetrics \<Rightarrow> real \<Rightarrow> real \<Rightarrow> TreeParams" where
  "treeParams now data progress animationTime =
     (let seed = seedOf (fullName data);
          health = calculateHealth now (lastPush data);
          maxDepth = Math_min (Num 10) (Math_max (Num 4)
                       (Math_floor (js_mul (Math_log10 (js_add (commitCount data) (Num 1))) (Num 1.6))));
          baseTrunkLength = Math_min (Num 180)
                       (js_add (Num 100) (js_mul (Math_log10 (js_add (repoSize data) (Num 1))) (Num 18)));
          trunkLength = js_mul baseTrunkLength (Num progress);
          stars = js_or (stars data) (Num 0);
          forks = js_or (forks data) (Num 0);
          age = js_or (age data) (Num 1);
          commitCount = js_or (commitCount data) (Num 100);
          size = js_or (repoSize data) (Num 1000);
          commitDensity = Math_min (Num 1) (js_div (Math_log10 (js_add commitCount (Num 1))) (Num 6));
          ageMultiplier = js_add (Num 1) (Math_min (Num 1) (js_div age (Num 10)));
          sizeSpread = Math_min (Num 1) (js_div (Math_log10 (js_add size (Num 1))) (Num 6));
          windCycle = 6000;
          windOffset = sin (animationTime / windCycle * pi * 2 + of_int seed * 0.01) * 0.05;
          breathingCycle = 4000;
          breathingFactor = 0.97 + 0.03 * sin (animationTime / breathingCycle * pi * 2);
          glowIntensity = breathingFactor
      in \<lparr>tp_seed = seed, tp_health = health, tp_maxDepth = maxDepth,
          tp_baseTrunkLength = baseTrunkLength, tp_trunkLength = trunkLength,
          tp_stars = stars, tp_forks = forks,
          tp_commitDensity = commitDensity, tp_ageMultiplier = ageMultiplier,
          tp_sizeSpread = sizeSpread, tp_windOffset = windOffset,
          tp_glowIntensity = glowIntensity\<rparr>)"



subsection \<open>Colours\<close>

definition hexDigit :: "char \<Rightarrow> nat option" where
  "hexDigit c =
     (let n = (of_char c :: nat)
      in if 48 \<le> n \<and> n \<le> 57 then Some (n - 48)
         else if 97 \<le> n \<and> n \<le> 102 then Some (n - 87)
         else if 65 \<le> n \<and> n \<le> 70 then Some (n - 55)
         else None)"

text \<open>
  \<open>parseInt(s, 16)\<close> on a slice of two characters.  The result is given for two
  hexadecimal digits; on other slices \<open>parseInt\<close> reads a prefix, a sign or
  \<open>NaN\<close>, which is not represented (\<open>None\<close>).
\<close>

definition parseInt16 :: "string \<Rightarrow> nat option" where
  "parseInt16 s =
     (case s of
        [a, b] \<Rightarrow> (case (hexDigit a, hexDigit b) of
                     (Some h, Some l) \<Rightarrow> Some (16 * h + l)
                   | _ \<Rightarrow> None)
      | _ \<Rightarrow> None)"

definition slice :: "nat \<Rightarrow> nat \<Rightarrow> string \<Rightarrow> string" where
  "slice i j s = take (j - i) (drop i s)"

text \<open>The three channels of a colour string, each as \<open>parseInt\<close> reads it.\<close>

definition channels :: "string \<Rightarrow> (nat \<times> nat \<times> nat) option" where
  "channels hex =
     (case (parseInt16 (slice 1 3 hex), parseInt16 (slice 3 5 hex), parseInt16 (slice 5 7 hex)) of
        (Some r, Some g, Some b) \<Rightarrow> Some (r, g, b)
      | _ \<Rightarrow> None)"

definition hexToHsl :: "string \<Rightarrow> (real \<times> real \<times> real) option" where
  "hexToHsl hex =
     (case channels hex of
        None \<Rightarrow> None
      | Some (rr, gg, bb) \<Rightarrow>
          (let r = real rr / 255;
               g = real gg / 255;
               b = real bb / 255;
               mx = max (max r g) b;
               mn = min (min r g) b;
               l = (mx + mn) / 2;
               (h, s) =
                 (if mx = mn then (0, 0)
                  else
                    (let d = mx - mn;
                         s = (if l > 0.5 then d / (2 - mx - mn) else d / (mx + mn));
                         h = (if mx = r then ((g - b) / d + (if g < b then 6 else 0)) / 6
                              else if mx = g then ((b - r) / d + 2) / 6
                              else ((r - g) / d + 4) / 6)
                     in (h, s)))
           in Some (h * 360, s * 100, l * 100)))"

definition hexChar :: "nat \<Rightarrow> char" where
  "hexChar n = ''0123456789abcdef'' ! (n mod 16)"

fun natToString16 :: "nat \<Rightarrow> string" where
  "natToString16 n =
     (if n < 16 then [hexChar n] else natToString16 (n div 16) @ [hexChar (n mod 16)])"

declare natToString16.simps [simp del]

definition toString16 :: "int \<Rightarrow> string" where
  "toString16 i = (if i < 0 then CHR ''-'' # natToString16 (nat (- i)) else natToString16 (nat i))"

definition padStart :: "nat \<Rightarrow> char \<Rightarrow> string \<Rightarrow> string" where
  "padStart n c s = replicate (n - length s) c @ s"

definition hslToHex :: "real \<Rightarrow> real \<Rightarrow> real \<Rightarrow> string" where
  "hslToHex h s0 l0 =
     (let s = s0 / 100;
          l = l0 / 100;
          c = (1 - \<bar>2 * l - 1\<bar>) * s;
          x = c * (1 - \<bar>js_fmod (h / 60) 2 - 1\<bar>);
          m = l - c / 2;
          (r, g, b) =
            (if h < 60 then (c, x, 0)
             else if h < 120 then (x, c, 0)
             else if h < 180 then (0, c, x)
             else if h < 240 then (0, x, c)
             else if h < 300 then (x, 0, c)
             else (c, 0, x));
          toHex = (\<lambda>n. padStart 2 CHR ''0'' (toString16 (Math_round ((n + m) * 255))))
      in CHR ''#'' # toHex r @ toHex g @ toHex b)"


definition LANGUAGE_COLORS :: "(string \<times> string) list" where
  "LANGUAGE_COLORS =
     [(''JavaScript'', ''#f7df1e''), (''TypeScript'', ''#3178c6''), (''Python'', ''#00d4ff''),
      (''Java'', ''#ff6b6b''), (''CSS'', ''#ff1493''), (''HTML'', ''#e34c26''),
      (''Go'', ''#00add8''), (''Rust'', ''#ff4500''), (''Ruby'', ''#ff6347''),
      (''PHP'', ''#a78bfa''), (''C'', ''#00ff00''), (''C++'', ''#00ff88''),
      (''C#'', ''#9b4993''), (''Swift'', ''#ff6600''), (''Kotlin'', ''#7c3aed''),
      (''default'', ''#00ffaa'')]"

definition languageColor :: "string \<Rightarrow> string" where
  "languageColor lang =
     (case map_of LANGUAGE_COLORS lang of Some c \<Rightarrow> c | None \<Rightarrow> ''#00ffaa'')"

text \<open>A valid colour string: \<open>#\<close> and six hexadecimal digits.\<close>

definition validHex :: "string \<Rightarrow> bool" where
  "validHex hex = (length hex = 7 \<and> hd hex = CHR ''#'' \<and> list_all (\<lambda>c. hexDigit c \<noteq> None) (tl hex))"

subsection \<open>The arithmetic of the colour conversions\<close>

text \<open>
  The conversions without their strings: \<open>hslOfRgb\<close> is what \<open>hexToHsl\<close> computes from
  the three channels divided by 255, and \<open>rgbOfHsl\<close> gives the three numbers \<open>n + m\<close>
  that \<open>hslToHex\<close> scales by 255, rounds and prints.
\<close>

definition hslOfRgb :: "real \<Rightarrow> real \<Rightarrow> real \<Rightarrow> real \<times> real \<times> real" where
  "hslOfRgb r g b =
     (let mx = max (max r g) b;
          mn = min (min r g) b;
          l = (mx + mn) / 2;
          (h, s) =
            (if mx = mn then (0, 0)
             else
               (let d = mx - mn;
                    s = (if l > 0.5 then d / (2 - mx - mn) else d / (mx + mn));
                    h = (if mx = r then ((g - b) / d + (if g < b then 6 else 0)) / 6
                         else if mx = g then ((b - r) / d + 2) / 6
                         else ((r - g) / d + 4) / 6)
                in (h, s)))
      in (h * 360, s * 100, l * 100))"

definition rgbOfHsl :: "real \<Rightarrow> real \<Rightarrow> real \<Rightarrow> real \<times> real \<times> real" where
  "rgbOfHsl h s0 l0 =
     (let s = s0 / 100;
          l = l0 / 100;
          c = (1 - \<bar>2 * l - 1\<bar>) * s;
          x = c * (1 - \<bar>js_fmod (h / 60) 2 - 1\<bar>);
          m = l - c / 2;
          (r, g, b) =
            (if h < 60 then (c, x, 0)
             else if h < 120 then (x, c, 0)
             else if h < 180 then (0, c, x)
             else if h < 240 then (0, x, c)
             else if h < 300 then (x, 0, c)
             else (c, 0, x))
      in (r + m, g + m, b + m))"

definition toHex :: "real \<Rightarrow> string" where
  "toHex v = padStart 2 CHR ''0'' (toString16 (Math_round (v * 255)))"

subsection \<open>Particles\<close>

text \<open>
  \<open>Math.random()\<close> is the only source of randomness outside the seeded generator.  Its
  results are a stream \<open>rnd\<close> given from outside; a constructor that is entered after
  \<open>n\<close> draws reads \<open>rnd n\<close>, \<open>rnd (n + 1)\<close> and so on, in the order of the source.
\<close>

record Particle =
  p_x :: real
  p_y :: real
  p_vx :: real
  p_vy :: real
  p_life :: real
  p_decay :: real
  p_size :: real
  p_color :: string

definition newParticle :: "real \<Rightarrow> real \<Rightarrow> string \<Rightarrow> (nat \<Rightarrow> real) \<Rightarrow> nat \<Rightarrow> Particle" where
  "newParticle x y color rnd n =
     \<lparr>p_x = x, p_y = y,
      p_vx = (rnd n - 0.5) * 0.5,
      p_vy = - rnd (n + 1) * 0.3 - 0.2,
      p_life = 1,
      p_decay = 0.01,
      p_size = rnd (n + 2) * 2 + 1,
      p_color = color\<rparr>"

text \<open>\<open>update()\<close> returns the particle as it has changed it, and its result.\<close>

definition Particle_update :: "Particle \<Rightarrow> Particle \<times> bool" where
  "Particle_update p =
     (let p1 = p\<lparr>p_x := p_x p + p_vx p\<rparr>;
          p2 = p1\<lparr>p_y := p_y p1 + p_vy p1\<rparr>;
          p3 = p2\<lparr>p_life := p_life p2 - p_decay p2\<rparr>
      in (p3, p_life p3 > 0))"

record Bounds =
  minX :: real
  maxX :: real
  minY :: num
  maxY :: real

text \<open>
  The vertical position of a firefly and of a falling leaf, and the upper bound of a
  firefly's box, are computed from the trunk length, a \<open>num\<close>.
\<close>

record Firefly =
  f_x :: real
  f_y :: num
  f_baseX :: real
  f_baseY :: num
  f_bounds :: "Bounds option"
  f_angle :: real
  f_speed :: real
  f_wobble :: real
  f_wobbleSpeed :: real
  f_life :: real
  f_decay :: real
  f_size :: real
  f_color :: string
  f_glowPhase :: real

definition newFirefly ::
  "real \<Rightarrow> num \<Rightarrow> string \<Rightarrow> Bounds option \<Rightarrow> (nat \<Rightarrow> real) \<Rightarrow> nat \<Rightarrow> Firefly" where
  "newFirefly x y color bounds rnd n =
     \<lparr>f_x = x, f_y = y, f_baseX = x, f_baseY = y, f_bounds = bounds,
      f_angle = rnd n * pi * 2,
      f_speed = 0.3 + rnd (n + 1) * 0.4,
      f_wobble = rnd (n + 2) * pi * 2,
      f_wobbleSpeed = 0.02 + rnd (n + 3) * 0.02,
      f_life = 1,
      f_decay = 0.002 + rnd (n + 4) * 0.002,
      f_size = 1.5 + rnd (n + 5) * 2,
      f_color = color,
      f_glowPhase = rnd (n + 6) * pi * 2\<rparr>"

text \<open>\<open>update()\<close> of a firefly draws one random number, the argument \<open>r\<close>.\<close>

definition Firefly_update :: "real \<Rightarrow> Firefly \<Rightarrow> Firefly \<times> bool" where
  "Firefly_update r f =
     (let f1 = f\<lparr>f_wobble := f_wobble f + f_wobbleSpeed f\<rparr>;
          f2 = f1\<lparr>f_angle := f_angle f1 + (r - 0.5) * 0.1\<rparr>;
          f3 = f2\<lparr>f_x := f_x f2 + (cos (f_angle f2) * f_speed f2 + sin (f_wobble f2) * 0.3)\<rparr>;
          f4 = f3\<lparr>f_y := js_add (f_y f3)
                               (Num (sin (f_angle f3) * f_speed f3 + cos (f_wobble f3 * 0.7) * 0.2))\<rparr>;
          f8 = (case f_bounds f4 of
                  None \<Rightarrow> f4
                | Some bd \<Rightarrow>
                    (let f5 = (if f_x f4 < minX bd then f4\<lparr>f_angle := pi - f_angle f4\<rparr> else f4);
                         f6 = (if f_x f5 > maxX bd then f5\<lparr>f_angle := pi - f_angle f5\<rparr> else f5);
                         f7 = (if js_lt (f_y f6) (minY bd) then f6\<lparr>f_angle := - f_angle f6\<rparr> else f6)
                     in if js_gt (f_y f7) (Num (maxY bd)) then f7\<lparr>f_angle := - f_angle f7\<rparr> else f7));
          f9 = f8\<lparr>f_glowPhase := f_glowPhase f8 + 0.05\<rparr>;
          f10 = f9\<lparr>f_life := f_life f9 - f_decay f9\<rparr>
      in (f10, f_life f10 > 0))"

record FallingLeaf =
  l_x :: real
  l_y :: num
  l_vx :: real
  l_vy :: real
  l_life :: real
  l_decay :: real
  l_size :: real
  l_color :: string
  l_rotation :: real
  l_rotationSpeed :: real
  l_swayPhase :: real
  l_swaySpeed :: real

definition newFallingLeaf :: "real \<Rightarrow> num \<Rightarrow> string \<Rightarrow> (nat \<Rightarrow> real) \<Rightarrow> nat \<Rightarrow> FallingLeaf" where
  "newFallingLeaf x y color rnd n =
     \<lparr>l_x = x, l_y = y,
      l_vx = (rnd n - 0.5) * 0.8,
      l_vy = 0.3 + rnd (n + 1) * 0.5,
      l_life = 1,
      l_decay = 0.003 + rnd (n + 2) * 0.002,
      l_size = 2 + rnd (n + 3) * 3,
      l_color = color,
      l_rotation = rnd (n + 4) * pi * 2,
      l_rotationSpeed = (rnd (n + 5) - 0.5) * 0.05,
      l_swayPhase = rnd (n + 6) * pi * 2,
      l_swaySpeed = 0.03 + rnd (n + 7) * 0.02\<rparr>"

definition FallingLeaf_update :: "FallingLeaf \<Rightarrow> FallingLeaf \<times> bool" where
  "FallingLeaf_update l =
     (let l1 = l\<lparr>l_swayPhase := l_swayPhase l + l_swaySpeed l\<rparr>;
          l2 = l1\<lparr>l_x := l_x l1 + (l_vx l1 + sin (l_swayPhase l1) * 0.5)\<rparr>;
          l3 = l2\<lparr>l_y := js_add (l_y l2) (Num (l_vy l2))\<rparr>;
          l4 = l3\<lparr>l_rotation := l_rotation l3 + l_rotationSpeed l3\<rparr>;
          l5 = l4\<lparr>l_life := l_life l4 - l_decay l4\<rparr>
      in (l5, l_life l5 > 0))"

text \<open>
  \<open>xs.filter(p => p.update())\<close>: every member is updated, in order, and the members
  whose update returned true are kept as updated.  The fireflies draw one random number
  each, so that their filter threads the number of draws.
\<close>

definition filterUpdate :: "('a \<Rightarrow> 'a \<times> bool) \<Rightarrow> 'a list \<Rightarrow> 'a list" where
  "filterUpdate upd xs = map fst (filter snd (map upd xs))"

fun filterFireflies :: "(nat \<Rightarrow> real) \<Rightarrow> nat \<Rightarrow> Firefly list \<Rightarrow> Firefly list \<times> nat" where
  "filterFireflies rnd n [] = ([], n)"
| "filterFireflies rnd n (f # fs) =
     (let (f', alive) = Firefly_update (rnd n) f;
          (rest, n') = filterFireflies rnd (Suc n) fs
      in (if alive then f' # rest else rest, n'))"

subsection \<open>The branch renderer\<close>

text \<open>
  The calls on the drawing context are recorded in their order.  A colour with an alpha
  suffix, \<open>color + Math.floor(a).toString(16).padStart(2, '0')\<close>, is recorded as the
  colour and the integer \<open>Math.floor(a)\<close>.
\<close>

type_synonym rgba = "string \<times> int"

text \<open>A colour of a gradient stop: a literal of the program, or a colour with an alpha suffix.\<close>

datatype paint = Plain string | Alpha rgba

definition withAlpha :: "string \<Rightarrow> real \<Rightarrow> rgba" where
  "withAlpha color a = (color, \<lfloor>a\<rfloor>)"

datatype canvas_op =
    Save
  | Restore
  | BeginPath
  | MoveTo real real
  | QuadraticCurveTo real real real real
  | StrokeLinearGradient real real real real "(real \<times> rgba) list"
  | FillRadialGradient real real real real real real "(real \<times> rgba) list"
  | StrokeStyle rgba
  | LineWidth real
  | LineCapJoinRound
  | ShadowBlur real string
  | ShadowBlurOff
  | Stroke
  | Fill
  | Translate real real
  | Rotate real
  | FillLinearGradient real real real real "(real \<times> paint) list"
  | FillRect real real real real
  | StrokeColor string
  | LineTo real real
  | Arc real real real real real
  | LineCapRound

text \<open>
  The recursion frame of \<open>drawBranch\<close>: where a branch starts, its length, its angle and
  its depth.
\<close>

record BranchNode =
  bn_x :: real
  bn_y :: real
  bn_length :: real
  bn_angle :: real
  bn_depth :: int

text \<open>
  The mutable objects \<open>drawBranch\<close> works on: the seeded generator \<open>random\<close>, the drawing
  context, the particle array (\<open>None\<close> for a falsy argument) and the stream behind
  \<open>Math.random()\<close> with the number of draws made so far.  The field \<open>frames\<close> is a
  ghost: it logs the frame of every invocation of \<open>drawBranch\<close>, in the order of the
  calls, and nothing reads it.
\<close>

record scene =
  rng :: SeededRandom
  canvas :: "canvas_op list"
  particles :: "Particle list option"
  mathRandom :: "nat \<Rightarrow> real"
  randomDraws :: nat
  frames :: "BranchNode list"

definition random_next :: "scene \<Rightarrow> real \<times> scene" where
  "random_next s = (let (v, r) = rnd_next (rng s) in (v, s\<lparr>rng := r\<rparr>))"

definition ctx :: "canvas_op list \<Rightarrow> scene \<Rightarrow> scene" where
  "ctx ops s = s\<lparr>canvas := canvas s @ ops\<rparr>"

text \<open>\<open>particles.push(new Particle(x, y, color))\<close>, behind the test \<open>&& particles\<close>.\<close>

definition pushParticle :: "real \<Rightarrow> real \<Rightarrow> string \<Rightarrow> scene \<Rightarrow> scene" where
  "pushParticle x y color s =
     (case particles s of
        None \<Rightarrow> s
      | Some ps \<Rightarrow>
          s\<lparr>particles := Some (ps @ [newParticle x y color (mathRandom s) (randomDraws s)]),
            randomDraws := randomDraws s + 3\<rparr>)"

text \<open>
  The argument \<open>metrics\<close>: every field may be absent and has a default in the
  destructuring pattern at the head of \<open>drawBranch\<close>.
\<close>

record Metrics =
  commitDensity :: "real option"
  ageMultiplier :: "real option"
  sizeSpread :: "real option"
  windOffset :: "real option"
  glowIntensity :: "real option"

definition dflt :: "real \<Rightarrow> real option \<Rightarrow> real" where
  "dflt d v = (case v of None \<Rightarrow> d | Some a \<Rightarrow> a)"

text \<open>
  The body of \<open>drawBranch\<close> is divided at its comments.  First the segment: wind sway,
  the curve from the start to the end point, and its stroke.  The result carries what
  the later parts read: the end point, the swayed angle, the wind effect and the opacity.
  The quotient \<open>depth / maxDepth\<close> is the real quotient, which is the program's for
  \<open>maxDepth \<noteq> 0\<close>.
\<close>

definition drawSegment ::
  "real \<Rightarrow> real \<Rightarrow> real \<Rightarrow> real \<Rightarrow> int \<Rightarrow> int \<Rightarrow> string \<Rightarrow> real \<Rightarrow> Metrics \<Rightarrow> scene
     \<Rightarrow> (real \<times> real \<times> real \<times> real \<times> real) \<times> scene" where
  "drawSegment x y len angle depth maxDepth color health metrics s0 =
     (let ageMul = dflt 1 (ageMultiplier metrics);
          wind = dflt 0 (windOffset metrics);
          glow = dflt 1 (glowIntensity metrics);
          s1 = ctx [Save] s0;
          windEffect = wind * (of_int depth / of_int maxDepth) * 0.8;
          swayedAngle = angle + windEffect;
          (r, s2) = random_next s1;
          curvature = (r - 0.5) * len * 0.12;
          midX = (x + cos swayedAngle * len * 0.5) + cos (swayedAngle + pi / 2) * curvature;
          midY = (y + sin swayedAngle * len * 0.5) + sin (swayedAngle + pi / 2) * curvature;
          endX = x + cos swayedAngle * len;
          endY = y + sin swayedAngle * len;
          opacity = max 0.4 health * (1 - of_int depth / of_int maxDepth * 0.4);
          ageThicknessFactor =
            (if depth = 0 then ageMul
             else 1 + (ageMul - 1) * max 0 (1 - of_int depth / 3));
          baseWidth =
            max 0.5 (of_int (maxDepth - depth + 1) * (health * 0.6 + 0.4) * ageThicknessFactor);
          s3 = ctx [BeginPath, MoveTo x y, QuadraticCurveTo midX midY endX endY,
                    StrokeLinearGradient x y endX endY
                      [(0, withAlpha color (opacity * 255)),
                       (0.7, withAlpha color (opacity * 220)),
                       (1, withAlpha color (opacity * 180))],
                    LineWidth baseWidth, LineCapJoinRound] s2;
          s4 = (if depth < 3 then ctx [ShadowBlur (12 * health * glow) color] s3 else s3);
          s5 = ctx [Stroke, ShadowBlurOff] s4
      in ((endX, endY, swayedAngle, windEffect, opacity), s5))"

text \<open>One turn of the loop over the leaves of a tip, with the loop variable \<open>l\<close>.\<close>

definition drawLeaf ::
  "real \<Rightarrow> real \<Rightarrow> real \<Rightarrow> real \<Rightarrow> string \<Rightarrow> real \<Rightarrow> real \<Rightarrow> nat \<Rightarrow> scene \<Rightarrow> scene" where
  "drawLeaf endX endY windEffect opacity color health glow l s0 =
     (let (r1, s1) = random_next s0;
          leafSize = (3 + r1 * 4) * (0.8 + health * 0.4);
          (r2, s2) = random_next s1;
          leafAngle = r2 * pi * 2;
          (leafOffsetX, s3) =
            (if l > 0 then (let (r3, t) = random_next s2 in ((r3 - 0.5) * 6, t)) else (0, s2));
          (leafOffsetY, s4) =
            (if l > 0 then (let (r4, t) = random_next s3 in ((r4 - 0.5) * 6, t)) else (0, s3));
          s5 = ctx [Save, Translate (endX + leafOffsetX) (endY + leafOffsetY),
                    Rotate (leafAngle + windEffect * 2),
                    BeginPath, MoveTo 0 0,
                    QuadraticCurveTo (leafSize * 0.5) (- leafSize * 0.3) leafSize 0,
                    QuadraticCurveTo (leafSize * 0.5) (leafSize * 0.3) 0 0,
                    FillRadialGradient (leafSize * 0.3) 0 0 (leafSize * 0.3) 0 leafSize
                      [(0, withAlpha color (opacity * 255 * glow)),
                       (0.5, withAlpha color (opacity * 220 * glow)),
                       (1, (color, 48))],
                    Fill] s4;
          s6 = (if health > 0.6
                then ctx [StrokeStyle (withAlpha color (opacity * 150 * glow)), LineWidth 0.5,
                          ShadowBlur (6 * glow) color, Stroke, ShadowBlurOff] s5
                else s5)
      in ctx [Restore] s6)"

text \<open>The leaves at the tips, the particle they may emit, and the closing \<open>restore\<close>.\<close>

definition drawLeaves ::
  "real \<Rightarrow> real \<Rightarrow> real \<Rightarrow> real \<Rightarrow> int \<Rightarrow> int \<Rightarrow> string \<Rightarrow> real \<Rightarrow> Metrics \<Rightarrow> scene \<Rightarrow> scene" where
  "drawLeaves endX endY windEffect opacity depth maxDepth color health metrics s0 =
     (let density = dflt 0.5 (commitDensity metrics);
          glow = dflt 1 (glowIntensity metrics);
          leafChance = 0.3 - (1 - health) * 0.2 - (1 - density) * 0.1;
          (r1, s1) = random_next s0;
          shouldDrawLeaf = (r1 > 1 - max 0.1 (leafChance * 2));
          s5 = (if depth \<ge> maxDepth - 2 \<and> shouldDrawLeaf then
                  (let (leafCount, s2) =
                         (if health > 0.6 \<and> density > 0.5
                          then (let (r2, t) = random_next s1 in (if r2 > 0.5 then 2 else 1, t))
                          else (1, s1));
                       s3 = fold (drawLeaf endX endY windEffect opacity color health glow)
                              [0..<leafCount] s2;
                       particleChance = 0.95 - health * 0.1;
                       (r3, s4) = random_next s3
                   in if r3 > particleChance then pushParticle endX endY color s4 else s4)
                else s1)
      in ctx [Restore] s5)"

text \<open>The number of children: two near the trunk, two to four further out.\<close>

definition chooseBranchCount :: "int \<Rightarrow> Metrics \<Rightarrow> scene \<Rightarrow> nat \<times> scene" where
  "chooseBranchCount depth metrics s =
     (let density = dflt 0.5 (commitDensity metrics)
      in if depth < 2 then (2, s)
         else (let (densityRoll, s1) = random_next s
               in if density > 0.7 \<and> densityRoll > 0.6 then (4, s1)
                  else if density > 0.4 \<and> densityRoll > 0.4 then (3, s1)
                  else (2, s1)))"

text \<open>The length and the angle of one child, as computed in a turn of the last loop.\<close>

definition childBranch ::
  "real \<Rightarrow> real \<Rightarrow> real \<Rightarrow> Metrics \<Rightarrow> scene \<Rightarrow> (real \<times> real) \<times> scene" where
  "childBranch len swayedAngle health metrics s0 =
     (let spread = dflt 0.5 (sizeSpread metrics);
          baseAngleSpread = pi * (0.11 + spread * 0.14);
          (r1, s1) = random_next s0;
          angleVariation = (r1 - 0.5) * baseAngleSpread * 2;
          newAngle = swayedAngle + angleVariation;
          (r2, s2) = random_next s1;
          lengthReduction = 0.65 + r2 * 0.15;
          newLength = len * lengthReduction;
          droopFactor = (1 - health) * 0.3;
          adjustedAngle = newAngle + droopFactor
      in ((newLength, adjustedAngle), s2))"

function drawBranch ::
  "real \<Rightarrow> real \<Rightarrow> real \<Rightarrow> real \<Rightarrow> int \<Rightarrow> int \<Rightarrow> string \<Rightarrow> real \<Rightarrow> Metrics \<Rightarrow> scene \<Rightarrow> scene" where
  "drawBranch x y len angle depth maxDepth color health metrics s =
     (let s0 = s\<lparr>frames := frames s @
                  [\<lparr>bn_x = x, bn_y = y, bn_length = len, bn_angle = angle, bn_depth = depth\<rparr>]\<rparr>
      in if depth > maxDepth \<or> len < 2 then s0
         else
           (let ((endX, endY, swayedAngle, windEffect, opacity), s1) =
                  drawSegment x y len angle depth maxDepth color health metrics s0;
                s2 = drawLeaves endX endY windEffect opacity depth maxDepth color health metrics s1;
                (branchCount, s3) = chooseBranchCount depth metrics s2
            in fold (\<lambda>i t.
                       (let ((newLength, adjustedAngle), t') =
                              childBranch len swayedAngle health metrics t
                        in drawBranch endX endY newLength adjustedAngle (depth + 1) maxDepth
                             color health metrics t'))
                 [0..<branchCount] s3))"
  by pat_completeness auto
termination
  by (relation "measure (\<lambda>(x, y, len, angle, depth, maxDepth, rest). nat (maxDepth + 1 - depth))")
    auto

declare drawBranch.simps [simp del]

text \<open>
  The scene of a fresh render: a new \<open>SeededRandom\<close> on the given seed, an empty record
  of the context, and the particle array and the state of \<open>Math.random\<close> as they are.
\<close>

definition freshScene :: "int \<Rightarrow> Particle list option \<Rightarrow> (nat \<Rightarrow> real) \<Rightarrow> nat \<Rightarrow> scene" where
  "freshScene sd ps rnd n =
     \<lparr>rng = mkRandom sd, canvas = [], particles = ps, mathRandom = rnd, randomDraws = n,
      frames = []\<rparr>"

subsection \<open>The tree as a whole\<close>



text \<open>
  The drawing context answers some calls with an exception.  By the HTML standard these
  are, among the calls of the program: a gradient factory with an argument that is not
  finite, or \<open>createRadialGradient\<close> with a negative radius; \<open>addColorStop\<close> with an
  offset outside \<open>[0, 1]\<close> or with a colour that does not parse; and \<open>arc\<close> with a
  negative radius.  All other calls ignore what they cannot use.  A colour with an alpha
  suffix parses when the colour is \<open>#\<close> with six hexadecimal digits and the suffix has
  two digits, that is, when the integer printed is between 0 and 255; the literals of the
  program are such a colour or \<open>transparent\<close>.  \<open>accepted\<close> holds of a recorded call that
  the context does not answer with an exception.
\<close>

definition parses :: "rgba \<Rightarrow> bool" where
  "parses ca = (validHex (fst ca) \<and> 0 \<le> snd ca \<and> snd ca \<le> 255)"

fun paintParses :: "paint \<Rightarrow> bool" where
  "paintParses (Plain c) = (validHex c \<or> c = ''transparent'')"
| "paintParses (Alpha ca) = parses ca"

definition stopAccepted :: "('c \<Rightarrow> bool) \<Rightarrow> real \<times> 'c \<Rightarrow> bool" where
  "stopAccepted parse st = (0 \<le> fst st \<and> fst st \<le> 1 \<and> parse (snd st))"

fun accepted :: "canvas_op \<Rightarrow> bool" where
  "accepted (StrokeLinearGradient x0 y0 x1 y1 stops) = list_all (stopAccepted parses) stops"
| "accepted (FillLinearGradient x0 y0 x1 y1 stops) = list_all (stopAccepted paintParses) stops"
| "accepted (FillRadialGradient x0 y0 r0 x1 y1 r1 stops) =
     (0 \<le> r0 \<and> 0 \<le> r1 \<and> list_all (stopAccepted parses) stops)"
| "accepted (Arc x y r a0 a1) = (0 \<le> r)"
| "accepted other = True"













text \<open>
  A scene in which no recorded call is answered with an exception, and whose generator
  has a seed that is not negative.
\<close>

definition sceneOk :: "scene \<Rightarrow> bool" where
  "sceneOk s = (list_all accepted (canvas s) \<and> 0 \<le> seed (rng s))"


subsection \<open>The application state and the frame loop\<close>

text \<open>
  The references and the state cells of the component \<open>App\<close> that the animation and the
  handlers touch.  A state setter of React takes effect with the next render; here it is
  applied at once, which is the state that the next render and its effects see.
  \<open>repoData\<close> is \<open>None\<close> when it is \<open>undefined\<close>.
\<close>

record App =
  particlesRef :: "Particle list"
  firefliesRef :: "Firefly list"
  fallingLeavesRef :: "FallingLeaf list"
  animationTimeRef :: real
  lastFrameTimeRef :: real
  growthProgress :: real
  growthProgressRef :: real
  lastRenderedProgressRef :: real
  repoData :: "RepoMetrics option"
  selectedRepo :: int
  isAnimating :: bool
  customRepos :: "RepoMetrics list"
  repoUrl :: string
  appRandom :: "nat \<Rightarrow> real"
  appDraws :: nat

definition MOCK_REPOS :: "RepoMetrics list" where
  "MOCK_REPOS =
     [\<lparr>fullName = ''facebook/react'', language = ''JavaScript'', lastPush = Time 1705314600000,
       commitCount = Num 15234, repoSize = Num 45000, stars = Num 218000, forks = Num 45800,
       age = Num 12.7\<rparr>,
      \<lparr>fullName = ''tensorflow/tensorflow'', language = ''Python'', lastPush = Time 1706451720000,
       commitCount = Num 89432, repoSize = Num 125000, stars = Num 180000, forks = Num 89000,
       age = Num 10.2\<rparr>,
      \<lparr>fullName = ''torvalds/linux'', language = ''C'', lastPush = Time 1706516100000,
       commitCount = Num 1200000, repoSize = Num 850000, stars = Num 165000, forks = Num 52000,
       age = Num 14.4\<rparr>,
      \<lparr>fullName = ''user/abandoned-repo'', language = ''Ruby'', lastPush = Time 1591789500000,
       commitCount = Num 234, repoSize = Num 1200, stars = Num 45, forks = Num 12,
       age = Num 7.9\<rparr>]"

text \<open>Reading an array at an index: \<open>undefined\<close> outside its range.\<close>

definition at_index :: "'a list \<Rightarrow> nat \<Rightarrow> 'a option" where
  "at_index xs i = (if i < length xs then Some (xs ! i) else None)"

fun findIndex :: "('a \<Rightarrow> bool) \<Rightarrow> 'a list \<Rightarrow> nat option" where
  "findIndex P [] = None"
| "findIndex P (x # xs) =
     (if P x then Some 0 else (case findIndex P xs of None \<Rightarrow> None | Some i \<Rightarrow> Some (Suc i)))"

definition loadRepo :: "nat \<Rightarrow> bool \<Rightarrow> App \<Rightarrow> App" where
  "loadRepo index isCustom app =
     (let repo = (if isCustom then at_index (customRepos app) index else at_index MOCK_REPOS index)
      in app\<lparr>selectedRepo := (if isCustom then - 1 else int index),
             repoData := repo,
             growthProgress := 0,
             growthProgressRef := 0,
             lastRenderedProgressRef := - 1,
             particlesRef := [],
             firefliesRef := [],
             fallingLeavesRef := [],
             isAnimating := True\<rparr>)"

text \<open>
  \<open>handleLoadCustomRepo\<close> from the point where \<open>fetchGitHubRepo\<close> has returned the
  record \<open>fetched\<close>; the checks of the URL and the failures of the fetch come before and
  leave the state of the animation alone.
\<close>

definition handleLoadCustomRepo :: "RepoMetrics \<Rightarrow> App \<Rightarrow> App" where
  "handleLoadCustomRepo fetched app =
     (let app1 =
            (case findIndex (\<lambda>r. fullName r = fullName fetched) (customRepos app) of
               Some existingIndex \<Rightarrow> loadRepo existingIndex True app
             | None \<Rightarrow>
                 app\<lparr>customRepos := customRepos app @ [fetched],
                     repoData := Some fetched,
                     selectedRepo := - 1,
                     growthProgress := 0,
                     growthProgressRef := 0,
                     lastRenderedProgressRef := - 1,
                     particlesRef := [],
                     isAnimating := True\<rparr>)
      in app1\<lparr>repoUrl := []\<rparr>)"

datatype js_error = TypeError

text \<open>
  What one call of \<open>animateParticles\<close> reads from outside: the date, the clock of
  \<open>performance.now()\<close>, the size of the canvas, and the effect of \<open>drawTree\<close> on the
  particle array, namely the particles that \<open>drawBranch\<close> has pushed in this frame and
  the number of draws from \<open>Math.random\<close> their constructors have made.
\<close>

record FrameInput =
  dateNow :: int
  performanceNow :: real
  canvasWidth :: real
  canvasHeight :: real
  treeParticles :: "Particle list"
  treeDraws :: nat

definition Math_random :: "App \<Rightarrow> real \<times> App" where
  "Math_random app = (appRandom app (appDraws app), app\<lparr>appDraws := Suc (appDraws app)\<rparr>)"

definition spawnFirefly :: "real \<Rightarrow> real \<Rightarrow> num \<Rightarrow> string \<Rightarrow> App \<Rightarrow> App" where
  "spawnFirefly startX startY baseTrunkLength baseColor app0 =
     (let (r1, app1) = Math_random app0;
          spawnX = startX + (r1 - 0.5) * 300;
          (r2, app2) = Math_random app1;
          spawnY = js_sub (js_sub (Num startY) (js_mul baseTrunkLength (Num 0.3)))
                     (js_mul (js_mul (Num r2) baseTrunkLength) (Num 0.8));
          bounds = \<lparr>minX = startX - 200, maxX = startX + 200,
                    minY = js_sub (Num startY) (js_mul baseTrunkLength (Num 1.5)),
                    maxY = startY - 20\<rparr>;
          firefly = newFirefly spawnX spawnY baseColor (Some bounds) (appRandom app2) (appDraws app2)
      in app2\<lparr>firefliesRef := firefliesRef app2 @ [firefly], appDraws := appDraws app2 + 7\<rparr>)"

definition spawnFallingLeaf :: "real \<Rightarrow> real \<Rightarrow> num \<Rightarrow> string \<Rightarrow> App \<Rightarrow> App" where
  "spawnFallingLeaf startX startY baseTrunkLength baseColor app0 =
     (let (r1, app1) = Math_random app0;
          spawnX = startX + (r1 - 0.5) * 200;
          (r2, app2) = Math_random app1;
          spawnY = js_sub (Num startY) (js_mul baseTrunkLength (Num (0.4 + r2 * 0.5)));
          leaf = newFallingLeaf spawnX spawnY baseColor (appRandom app2) (appDraws app2)
      in app2\<lparr>fallingLeavesRef := fallingLeavesRef app2 @ [leaf], appDraws := appDraws app2 + 8\<rparr>)"

text \<open>The two blocks of \<open>animateParticles\<close> that spawn, each behind its conditions.\<close>

definition spawnFireflies :: "real \<Rightarrow> num \<Rightarrow> real \<Rightarrow> real \<Rightarrow> num \<Rightarrow> string \<Rightarrow> App \<Rightarrow> App" where
  "spawnFireflies currentProgress starCount startX startY baseTrunkLength baseColor app =
     (if currentProgress > 0.8 \<and> js_gt starCount (Num 500) then
        (let maxFireflies = Math_min (Num 15) (Math_floor (js_mul (Math_log10 starCount) (Num 3)));
             spawnChance = js_mul (Num 0.01) (js_div starCount (Num 10000))
         in if js_lt (Num (real (length (firefliesRef app)))) maxFireflies then
              (let (r, app') = Math_random app
               in if js_lt (Num r) spawnChance
                  then spawnFirefly startX startY baseTrunkLength baseColor app'
                  else app')
            else app)
      else app)"

definition spawnFallingLeaves :: "real \<Rightarrow> real \<Rightarrow> real \<Rightarrow> real \<Rightarrow> num \<Rightarrow> string \<Rightarrow> App \<Rightarrow> App" where
  "spawnFallingLeaves currentProgress health startX startY baseTrunkLength baseColor app =
     (if currentProgress > 0.8 \<and> health < 0.5 then
        (let maxLeaves = \<lfloor>(1 - health) * 8\<rfloor>;
             spawnChance = 0.005 * (1 - health)
         in if int (length (fallingLeavesRef app)) < maxLeaves then
              (let (r, app') = Math_random app
               in if r < spawnChance
                  then spawnFallingLeaf startX startY baseTrunkLength baseColor app'
                  else app')
            else app)
      else app)"

text \<open>
  \<open>renderFrame\<close> calls \<open>draw\<close> on every member of the three collections: the result
  lists the objects drawn.
\<close>

definition renderFrame :: "App \<Rightarrow> Particle list \<times> Firefly list \<times> FallingLeaf list" where
  "renderFrame app = (particlesRef app, firefliesRef app, fallingLeavesRef app)"

text \<open>
  One call of \<open>animateParticles\<close>, up to the request of the next frame.  The result is
  the state in which \<open>renderFrame\<close> runs, at the end of the call; reading a field of an
  undefined \<open>repoData\<close> throws.
\<close>

definition animateParticles :: "FrameInput \<Rightarrow> App \<Rightarrow> js_error + App" where
  "animateParticles inp app0 =
     (case repoData app0 of
        None \<Rightarrow> Inl TypeError
      | Some repo \<Rightarrow>
          (let now = performanceNow inp;
               deltaTime = now - lastFrameTimeRef app0;
               app1 = app0\<lparr>lastFrameTimeRef := now,
                          animationTimeRef := animationTimeRef app0 + deltaTime\<rparr>;
               currentProgress = growthProgressRef app1;
               health = calculateHealth (dateNow inp) (lastPush repo);
               stars = js_or (stars repo) (Num 0);
               baseColor = languageColor (language repo);
               startX = canvasWidth inp / 2 + 150;
               startY = canvasHeight inp - 80;
               baseTrunkLength = Math_min (Num 180)
                 (js_add (Num 100)
                    (js_mul (Math_log10 (js_add (js_or (repoSize repo) (Num 1000)) (Num 1))) (Num 18)));
               app2 = app1\<lparr>particlesRef := particlesRef app1 @ treeParticles inp,
                          appDraws := appDraws app1 + treeDraws inp,
                          lastRenderedProgressRef := currentProgress\<rparr>;
               app3 = app2\<lparr>particlesRef := filterUpdate Particle_update (particlesRef app2)\<rparr>;
               (fireflies, draws) =
                 filterFireflies (appRandom app3) (appDraws app3) (firefliesRef app3);
               app4 = app3\<lparr>firefliesRef := fireflies, appDraws := draws\<rparr>;
               app5 = app4\<lparr>fallingLeavesRef :=
                            filterUpdate FallingLeaf_update (fallingLeavesRef app4)\<rparr>;
               app6 = spawnFireflies currentProgress stars startX startY baseTrunkLength baseColor app5;
               app7 = spawnFallingLeaves currentProgress health startX startY baseTrunkLength
                        baseColor app6
           in Inr app7))"

text \<open>
  The effect that runs when \<open>repoData\<close> has changed: it resets the animation clock and
  makes the first call of \<open>animateParticles\<close> for the new repository.
\<close>

definition repoDataEffect :: "FrameInput \<Rightarrow> App \<Rightarrow> js_error + App" where
  "repoDataEffect inp app =
     animateParticles inp (app\<lparr>animationTimeRef := 0, lastFrameTimeRef := performanceNow inp\<rparr>)"

subsection \<open>A state with particles of the previous repository\<close>

text \<open>
  The first mock repository is shown and fully grown; one ambient particle, one firefly
  and one falling leaf are alive.  \<open>helloWorld\<close> is a record as \<open>fetchGitHubRepo\<close>
  returns it for a repository that is not yet among the custom repositories.
\<close>

definition staleFirefly :: Firefly where
  "staleFirefly = newFirefly 700 (Num 400) ''#f7df1e'' None (\<lambda>n. 1 / 2) 0"

definition staleLeaf :: FallingLeaf where
  "staleLeaf = newFallingLeaf 700 (Num 300) ''#f7df1e'' (\<lambda>n. 1 / 2) 0"

definition staleApp :: App where
  "staleApp =
     \<lparr>particlesRef = [newParticle 700 200 ''#f7df1e'' (\<lambda>n. 1 / 2) 0],
      firefliesRef = [staleFirefly],
      fallingLeavesRef = [staleLeaf],
      animationTimeRef = 5000,
      lastFrameTimeRef = 5000,
      growthProgress = 1,
      growthProgressRef = 1,
      lastRenderedProgressRef = 1,
      repoData = at_index MOCK_REPOS 0,
      selectedRepo = 0,
      isAnimating = False,
      customRepos = [],
      repoUrl = ''octocat/Hello-World'',
      appRandom = (\<lambda>n. 1 / 2),
      appDraws = 0\<rparr>"

definition helloWorld :: RepoMetrics where
  "helloWorld =
     \<lparr>fullName = ''octocat/Hello-World'', language = ''Unknown'', lastPush = Time 1705314600000,
      commitCount = Num 3, repoSize = Num 1, stars = Num 2500, forks = Num 2000, age = Num 13\<rparr>"

definition firstFrame :: FrameInput where
  "firstFrame =
     \<lparr>dateNow = 1706745600000, performanceNow = 6000, canvasWidth = 1280, canvasHeight = 720,
      treeParticles = [], treeDraws = 0\<rparr>"

subsection \<open>The life of one particle\<close>

text \<open>
  A particle after its first \<open>k\<close> updates, and a collection after \<open>k\<close> frames of
  update and filter; \<open>upd k\<close> is the update as it runs in frame \<open>k\<close>.  For a firefly
  the update depends on the frame through the random number it draws.
\<close>

fun updates :: "(nat \<Rightarrow> 'a \<Rightarrow> 'a \<times> bool) \<Rightarrow> nat \<Rightarrow> 'a \<Rightarrow> 'a" where
  "updates upd 0 p = p"
| "updates upd (Suc k) p = fst (upd k (updates upd k p))"

fun collectionAfter :: "(nat \<Rightarrow> 'a \<Rightarrow> 'a \<times> bool) \<Rightarrow> nat \<Rightarrow> 'a list \<Rightarrow> 'a list" where
  "collectionAfter upd 0 ps = ps"
| "collectionAfter upd (Suc k) ps = filterUpdate (upd k) (collectionAfter upd k ps)"

text \<open>
  The fireflies after \<open>k\<close> frames, where \<open>pos j\<close> draws from \<open>Math.random\<close> have been
  made when the filter of frame \<open>j\<close> starts.
\<close>

fun firefliesAfter :: "(nat \<Rightarrow> real) \<Rightarrow> (nat \<Rightarrow> nat) \<Rightarrow> nat \<Rightarrow> Firefly list \<Rightarrow> Firefly list" where
  "firefliesAfter rnd pos 0 fs = fs"
| "firefliesAfter rnd pos (Suc k) fs =
     fst (filterFireflies rnd (pos k) (firefliesAfter rnd pos k fs))"

text \<open>No member of a collection is dead: every one has a positive life.\<close>

definition allAlive :: "App \<Rightarrow> bool" where
  "allAlive a = ((\<forall>q \<in> set (particlesRef a). 0 < p_life q)
     \<and> (\<forall>q \<in> set (firefliesRef a). 0 < f_life q)
     \<and> (\<forall>q \<in> set (fallingLeavesRef a). 0 < l_life q))"

subsection \<open>The geometry of a render and the size of its call tree\<close>

text \<open>
  Two scenes show the same geometry when they agree on the seeded generator, on what has
  been drawn and on the frames entered; they may differ in the particle array and in the
  stream and the count of \<open>Math.random\<close>.
\<close>

definition sameGeometry :: "scene \<Rightarrow> scene \<Rightarrow> bool" where
  "sameGeometry s t = (rng s = rng t \<and> canvas s = canvas t \<and> frames s = frames t)"

text \<open>
  The number of calls in a call tree of height \<open>k\<close> in which every call has four
  children.
\<close>

fun callBound :: "nat \<Rightarrow> nat" where
  "callBound 0 = 1"
| "callBound (Suc k) = 1 + 4 * callBound k"

text \<open>The frame that an invocation of \<open>drawBranch\<close> logs.\<close>

definition node :: "real \<Rightarrow> real \<Rightarrow> real \<Rightarrow> real \<Rightarrow> int \<Rightarrow> BranchNode" where
  "node x y len angle depth =
     \<lparr>bn_x = x, bn_y = y, bn_length = len, bn_angle = angle, bn_depth = depth\<rparr>"

text \<open>Metrics for examples: a dense, middle-aged repository in still air.\<close>

definition exampleMetrics :: Metrics where
  "exampleMetrics =
     \<lparr>commitDensity = Some 0.8, ageMultiplier = Some 1.5, sizeSpread = Some 0.5,
      windOffset = Some 0, glowIntensity = Some 1\<rparr>"

text \<open>
  In a log of frames, no frame is more than one deeper than the frame before it: the
  calls descend one level at a time.
\<close>

fun deepensByOne :: "BranchNode list \<Rightarrow> bool" where
  "deepensByOne (a # b # ns) = (bn_depth b \<le> bn_depth a + 1 \<and> deepensByOne (b # ns))"
| "deepensByOne ns = True"

text \<open>
  The frames \<open>ns\<close> are those of the calls nested in a call at depth \<open>d\<close>: they are deeper
  than \<open>d\<close> and at most at \<open>m + 1\<close>, they begin one below \<open>d\<close>, and they descend one level
  at a time.
\<close>

definition nested :: "int \<Rightarrow> int \<Rightarrow> BranchNode list \<Rightarrow> bool" where
  "nested d m ns =
     ((\<forall>n \<in> set ns. d < bn_depth n \<and> bn_depth n \<le> m + 1) \<and> deepensByOne ns
      \<and> (ns \<noteq> [] \<longrightarrow> bn_depth (hd ns) = d + 1))"

section \<open>Results\<close>

subsection \<open>The seeded generator\<close>










subsection \<open>Health\<close>

lemma calculateHealth_Time:
  "calculateHealth now (Time t) =
     (let d = (real_of_int now - real_of_int t) / 86400000
      in if d < 30 then 1.0 else if d < 90 then 0.8 else if d < 180 then 0.6
         else if d < 365 then 0.4 else 0.2)"
  by (simp add: calculateHealth_def js_sub_def Let_def)

lemma calculateHealth_InvalidDate: "calculateHealth now InvalidDate = 0.2"
  by (simp add: calculateHealth_def js_sub_def)

text \<open>
  Claim C3.  With \<open>d\<close> the days between the last push and now, the health is \<open>1.0\<close>
  for \<open>d < 30\<close>, \<open>0.8\<close> for \<open>30 \<le> d < 90\<close>, \<open>0.6\<close> for \<open>90 \<le> d < 180\<close>, \<open>0.4\<close> for
  \<open>180 \<le> d < 365\<close> and \<open>0.2\<close> otherwise, which includes a date that does not parse.  At
  exactly 29, 30, 89, 90 and 1000 days it is \<open>1.0\<close>, \<open>0.8\<close>, \<open>0.8\<close>, \<open>0.6\<close> and \<open>0.2\<close>.
\<close>

theorem calculateHealth_step_function:
  "(let d = (real_of_int now - real_of_int t) / 86400000;
        h = calculateHealth now (Time t)
    in (d < 30 \<longrightarrow> h = 1.0)
     \<and> (30 \<le> d \<and> d < 90 \<longrightarrow> h = 0.8)
     \<and> (90 \<le> d \<and> d < 180 \<longrightarrow> h = 0.6)
     \<and> (180 \<le> d \<and> d < 365 \<longrightarrow> h = 0.4)
     \<and> (365 \<le> d \<longrightarrow> h = 0.2))
   \<and> calculateHealth now InvalidDate = 0.2
   \<and> calculateHealth now (Time (now - 29 * 86400000)) = 1.0
   \<and> calculateHealth now (Time (now - 30 * 86400000)) = 0.8
   \<and> calculateHealth now (Time (now - 89 * 86400000)) = 0.8
   \<and> calculateHealth now (Time (now - 90 * 86400000)) = 0.6
   \<and> calculateHealth now (Time (now - 1000 * 86400000)) = 0.2"
proof -
  have pts: "calculateHealth now (Time (now - k * 86400000)) =
       (if k < 30 then 1.0 else if k < 90 then 0.8 else if k < 180 then 0.6
        else if k < 365 then 0.4 else 0.2)" for k :: int
    by (simp add: calculateHealth_Time Let_def)
  show ?thesis
    unfolding pts calculateHealth_InvalidDate by (simp add: calculateHealth_Time Let_def)
qed

theorem calculateHealth_step_function_witness:
  "(let d = (real_of_int 1706745600000 - real_of_int 1591789500000) / 86400000
    in 365 \<le> d) \<and> calculateHealth 1706745600000 (Time 1591789500000) = 0.2
   \<and> (let d = (real_of_int 1706745600000 - real_of_int 1705314600000) / 86400000
    in d < 30) \<and> calculateHealth 1706745600000 (Time 1705314600000) = 1.0"
  using calculateHealth_step_function [of 1706745600000 1591789500000]
        calculateHealth_step_function [of 1706745600000 1705314600000]
  by (simp add: Let_def)

text \<open>
  Claim C10.  \<open>calculateHealth\<close> returns on every input, and what it returns is one of
  \<open>1.0\<close>, \<open>0.8\<close>, \<open>0.6\<close>, \<open>0.4\<close> and \<open>0.2\<close>; a last push in the future gives \<open>1.0\<close>, and a
  date that does not parse, whose days since the push are \<open>NaN\<close>, gives \<open>0.2\<close>.
\<close>

theorem calculateHealth_total:
  "calculateHealth now pushed \<in> {1.0, 0.8, 0.6, 0.4, 0.2}
   \<and> (now < t \<longrightarrow> calculateHealth now (Time t) = 1.0)
   \<and> calculateHealth now InvalidDate = 0.2"
proof -
  have "calculateHealth now pushed \<in> {1.0, 0.8, 0.6, 0.4, 0.2}"
    by (simp add: calculateHealth_def Let_def)
  moreover have "calculateHealth now (Time t) = 1.0" if "now < t"
  proof -
    from that have "real_of_int now - real_of_int t < 0" by simp
    then have "(real_of_int now - real_of_int t) / 86400000 < 30"
      by (simp add: divide_less_eq)
    then show ?thesis by (simp add: calculateHealth_Time Let_def)
  qed
  moreover note calculateHealth_InvalidDate [of now]
  ultimately show ?thesis by blast
qed

theorem calculateHealth_total_witness:
  "(1706745600000 :: int) < 1800000000000
   \<and> calculateHealth 1706745600000 (Time 1800000000000) = 1.0
   \<and> calculateHealth 1706745600000 (Time 1800000000000) \<in> {1.0, 0.8, 0.6, 0.4, 0.2}"
  using calculateHealth_total [of 1706745600000 "Time 1800000000000" 1800000000000]
  by simp

subsection \<open>Switching repositories\<close>

lemma loadRepo_clears:
  "particlesRef (loadRepo i c app) = [] \<and> firefliesRef (loadRepo i c app) = []
   \<and> fallingLeavesRef (loadRepo i c app) = [] \<and> growthProgressRef (loadRepo i c app) = 0
   \<and> growthProgress (loadRepo i c app) = 0"
  by (simp add: loadRepo_def Let_def)

lemma stale_particles_drawn_in_new_frame:
  "\<exists>app'. repoDataEffect firstFrame (handleLoadCustomRepo helloWorld staleApp) = Inr app'
     \<and> animationTimeRef app' = 0
     \<and> map f_color (fst (snd (renderFrame app'))) = [''#f7df1e'']
     \<and> map l_life (snd (snd (renderFrame app'))) = [1 - 0.004]"
  by (simp add: repoDataEffect_def animateParticles_def handleLoadCustomRepo_def staleApp_def
      firstFrame_def helloWorld_def Let_def renderFrame_def filterUpdate_def
      staleFirefly_def staleLeaf_def newFirefly_def newFallingLeaf_def
      Firefly_update_def FallingLeaf_update_def split_def spawnFireflies_def
      spawnFallingLeaves_def)

text \<open>
  Claim C8 at a state the program reaches.  The first mock repository is shown with a
  firefly and a falling leaf alive, and a repository that is not yet among the custom
  ones is loaded from its URL.  The handler empties the ambient particles and resets the
  growth progress, but the firefly and the falling leaf of the previous repository stay
  in their collections; \<open>loadRepo\<close> from the same state empties all three.
\<close>

theorem handleLoadCustomRepo_keeps_fireflies_and_leaves:
  "firefliesRef (handleLoadCustomRepo helloWorld staleApp) = [staleFirefly]
   \<and> fallingLeavesRef (handleLoadCustomRepo helloWorld staleApp) = [staleLeaf]
   \<and> particlesRef (handleLoadCustomRepo helloWorld staleApp) = []
   \<and> growthProgressRef (handleLoadCustomRepo helloWorld staleApp) = 0
   \<and> repoData (handleLoadCustomRepo helloWorld staleApp) = Some helloWorld
   \<and> firefliesRef (loadRepo 1 False staleApp) = []
   \<and> fallingLeavesRef (loadRepo 1 False staleApp) = []"
  by (simp add: handleLoadCustomRepo_def staleApp_def loadRepo_def Let_def)

subsection \<open>The life cycle of the particles\<close>

lemma filterUpdate_single:
  "filterUpdate upd [p] = (if snd (upd p) then [fst (upd p)] else [])"
  by (simp add: filterUpdate_def)

lemma filterUpdate_Nil: "filterUpdate upd [] = []"
  by (simp add: filterUpdate_def)

lemma updates_life:
  fixes life decay :: "'a \<Rightarrow> real"
  assumes step: "\<And>k q. life (fst (upd k q)) = life q - decay q \<and> decay (fst (upd k q)) = decay q"
  shows "life (updates upd k p) = life p - real k * decay p \<and> decay (updates upd k p) = decay p"
  by (induction k) (simp_all add: step algebra_simps)

lemma alive_iff:
  fixes L d :: real
  assumes "0 < d" "0 < L"
  shows "(0 < L - real (Suc k) * d) = (Suc k \<le> nat (\<lceil>L / d\<rceil> - 1))"
proof -
  have "(0 < L - real (Suc k) * d) = (real (Suc k) < L / d)"
    using assms by (simp add: pos_less_divide_eq)
  also have "\<dots> = (int (Suc k) < \<lceil>L / d\<rceil>)"
    by (simp add: less_ceiling_iff)
  also have "\<dots> = (Suc k \<le> nat (\<lceil>L / d\<rceil> - 1))"
    by linarith
  finally show ?thesis .
qed

lemma lifecycle:
  fixes life decay :: "'a \<Rightarrow> real"
  assumes step: "\<And>k q. life (fst (upd k q)) = life q - decay q \<and> decay (fst (upd k q)) = decay q"
    and res: "\<And>k q. snd (upd k q) = (0 < life (fst (upd k q)))"
    and pos: "0 < decay p" "0 < life p"
  shows "collectionAfter upd k [p] =
           (if k \<le> nat (\<lceil>life p / decay p\<rceil> - 1) then [updates upd k p] else [])
       \<and> (snd (upd k (updates upd k p)) = (k < nat (\<lceil>life p / decay p\<rceil> - 1)))"
proof -
  let ?n = "nat (\<lceil>life p / decay p\<rceil> - 1)"
  have r: "snd (upd k (updates upd k p)) = (Suc k \<le> ?n)" for k
  proof -
    have "life (fst (upd k (updates upd k p))) = life p - real (Suc k) * decay p"
      using updates_life [of life upd decay k p, OF step] by (simp add: step algebra_simps)
    with alive_iff [OF pos, of k] show ?thesis by (simp only: res)
  qed
  have "collectionAfter upd k [p] = (if k \<le> ?n then [updates upd k p] else [])"
  proof (induction k)
    case 0
    show ?case by simp
  next
    case (Suc k)
    show ?case
    proof (cases "k \<le> ?n")
      case True
      with Suc r [of k] show ?thesis by (simp add: filterUpdate_single)
    next
      case False
      with Suc show ?thesis by (simp add: filterUpdate_Nil)
    qed
  qed
  with r [of k] show ?thesis by (simp add: Suc_le_eq)
qed

lemma filterUpdate_alive:
  assumes "\<And>q. snd (upd q) \<Longrightarrow> P (fst (upd q))"
  shows "\<forall>q \<in> set (filterUpdate upd ps). P q"
proof
  fix q assume "q \<in> set (filterUpdate upd ps)"
  then obtain x where "q = fst (upd x)" "snd (upd x)"
    by (auto simp: filterUpdate_def)
  with assms show "P q" by simp
qed

lemma Particle_update_life:
  "p_life (fst (Particle_update q)) = p_life q - p_decay q
   \<and> p_decay (fst (Particle_update q)) = p_decay q"
  by (simp add: Particle_update_def Let_def)

lemma Particle_update_result:
  "snd (Particle_update q) = (0 < p_life (fst (Particle_update q)))"
  by (simp add: Particle_update_def Let_def)

lemma Firefly_update_life:
  "f_life (fst (Firefly_update r q)) = f_life q - f_decay q
   \<and> f_decay (fst (Firefly_update r q)) = f_decay q"
  by (simp add: Firefly_update_def Let_def split: option.split)

lemma Firefly_update_result:
  "snd (Firefly_update r q) = (0 < f_life (fst (Firefly_update r q)))"
  by (simp add: Firefly_update_def Let_def)

lemma FallingLeaf_update_life:
  "l_life (fst (FallingLeaf_update q)) = l_life q - l_decay q
   \<and> l_decay (fst (FallingLeaf_update q)) = l_decay q"
  by (simp add: FallingLeaf_update_def Let_def)

lemma FallingLeaf_update_result:
  "snd (FallingLeaf_update q) = (0 < l_life (fst (FallingLeaf_update q)))"
  by (simp add: FallingLeaf_update_def Let_def)

lemma filterFireflies_single:
  "fst (filterFireflies rnd n [f]) = filterUpdate (Firefly_update (rnd n)) [f]"
  by (simp add: filterUpdate_def split_def)

lemma filterFireflies_Nil: "fst (filterFireflies rnd n []) = []"
  by simp

lemma filterFireflies_alive:
  "\<forall>q \<in> set (fst (filterFireflies rnd n fs)). 0 < f_life q"
  by (induction fs arbitrary: n) (auto simp: split_def Let_def Firefly_update_result)


lemma Math_random_refs [simp]:
  "particlesRef (snd (Math_random a)) = particlesRef a"
  "firefliesRef (snd (Math_random a)) = firefliesRef a"
  "fallingLeavesRef (snd (Math_random a)) = fallingLeavesRef a"
  by (simp_all add: Math_random_def)

lemma spawnFirefly_refs:
  "particlesRef (spawnFirefly sx sy b c a) = particlesRef a"
  "fallingLeavesRef (spawnFirefly sx sy b c a) = fallingLeavesRef a"
  "\<exists>f. f_life f = 1 \<and> firefliesRef (spawnFirefly sx sy b c a) = firefliesRef a @ [f]"
  by (simp_all add: spawnFirefly_def Let_def split_def newFirefly_def)

lemma spawnFallingLeaf_refs:
  "particlesRef (spawnFallingLeaf sx sy b c a) = particlesRef a"
  "firefliesRef (spawnFallingLeaf sx sy b c a) = firefliesRef a"
  "\<exists>l. l_life l = 1 \<and> fallingLeavesRef (spawnFallingLeaf sx sy b c a) = fallingLeavesRef a @ [l]"
  by (simp_all add: spawnFallingLeaf_def Let_def split_def newFallingLeaf_def)

lemma allAlive_Math_random: "allAlive a \<Longrightarrow> allAlive (snd (Math_random a))"
  by (simp add: allAlive_def)

lemma allAlive_spawnFirefly: "allAlive a \<Longrightarrow> allAlive (spawnFirefly sx sy b c a)"
  using spawnFirefly_refs [of sx sy b c a] by (auto simp: allAlive_def)

lemma allAlive_spawnFallingLeaf: "allAlive a \<Longrightarrow> allAlive (spawnFallingLeaf sx sy b c a)"
  using spawnFallingLeaf_refs [of sx sy b c a] by (auto simp: allAlive_def)

lemma allAlive_filtered:
  assumes "particlesRef a = filterUpdate Particle_update ps"
    and "firefliesRef a = fst (filterFireflies rnd n fs)"
    and "fallingLeavesRef a = filterUpdate FallingLeaf_update ls"
  shows "allAlive a"
  using filterUpdate_alive [of Particle_update "\<lambda>q. 0 < p_life q" ps]
        filterUpdate_alive [of FallingLeaf_update "\<lambda>q. 0 < l_life q" ls]
        filterFireflies_alive [of rnd n fs] assms
  by (simp add: allAlive_def Particle_update_result FallingLeaf_update_result)

lemma allAlive_spawnFireflies:
  "allAlive a \<Longrightarrow> allAlive (spawnFireflies cp st sx sy b c a)"
  by (simp add: spawnFireflies_def Let_def split_def allAlive_Math_random allAlive_spawnFirefly)

lemma allAlive_spawnFallingLeaves:
  "allAlive a \<Longrightarrow> allAlive (spawnFallingLeaves cp h sx sy b c a)"
  by (simp add: spawnFallingLeaves_def Let_def split_def allAlive_Math_random
      allAlive_spawnFallingLeaf)

lemma animateParticles_alive:
  assumes "animateParticles inp app = Inr app'"
  shows "allAlive app'"
proof (cases "repoData app")
  case None
  with assms show ?thesis by (simp add: animateParticles_def)
next
  case (Some repo)
  have "allAlive a" if "particlesRef a = filterUpdate Particle_update (particlesRef app @ treeParticles inp)"
    "firefliesRef a = fst (filterFireflies (appRandom app) (appDraws app + treeDraws inp) (firefliesRef app))"
    "fallingLeavesRef a = filterUpdate FallingLeaf_update (fallingLeavesRef app)" for a
    using that by (rule allAlive_filtered)
  then show ?thesis
    using assms Some
    by (auto simp: animateParticles_def Let_def split_def
        intro!: allAlive_spawnFallingLeaves allAlive_spawnFireflies)
qed


lemma firefliesAfter_single:
  assumes "0 < f_decay f" "0 < f_life f"
  shows "firefliesAfter rnd pos k [f] = collectionAfter (\<lambda>j. Firefly_update (rnd (pos j))) k [f]"
proof (induction k)
  case 0
  show ?case by simp
next
  case (Suc k)
  let ?U = "\<lambda>j. Firefly_update (rnd (pos j))"
  from lifecycle [of f_life ?U f_decay f k] assms
  have "collectionAfter ?U k [f] = [updates ?U k f] \<or> collectionAfter ?U k [f] = []"
    by (simp add: Firefly_update_life Firefly_update_result split: if_splits)
  with Suc show ?case
    by (auto simp: filterFireflies_single filterFireflies_Nil filterUpdate_Nil
        simp del: filterFireflies.simps)
qed


lemma filterUpdate_append:
  "filterUpdate upd (xs @ ys) = filterUpdate upd xs @ filterUpdate upd ys"
  by (simp add: filterUpdate_def)

lemma collectionAfter_append:
  "collectionAfter upd k (xs @ ys) = collectionAfter upd k xs @ collectionAfter upd k ys"
  by (induction k) (simp_all add: filterUpdate_append)

lemma collectionAfter_member:
  "collectionAfter upd k (qs @ p # rs) =
     collectionAfter upd k qs @ collectionAfter upd k [p] @ collectionAfter upd k rs"
  using collectionAfter_append [of upd k qs "[p] @ rs"] collectionAfter_append [of upd k "[p]" rs]
  by simp

lemma filterFireflies_snd: "snd (filterFireflies rnd n fs) = n + length fs"
  by (induction fs arbitrary: n) (simp_all add: split_def Let_def)

lemma filterFireflies_append:
  "fst (filterFireflies rnd n (xs @ ys)) =
     fst (filterFireflies rnd n xs) @ fst (filterFireflies rnd (n + length xs) ys)"
  by (induction xs arbitrary: n) (simp_all add: split_def Let_def)

lemma firefliesAfter_append:
  "firefliesAfter rnd pos k (xs @ ys) =
     firefliesAfter rnd pos k xs
     @ firefliesAfter rnd (\<lambda>j. pos j + length (firefliesAfter rnd pos j xs)) k ys"
  by (induction k) (simp_all add: filterFireflies_append)


lemma firefliesAfter_member:
  "firefliesAfter rnd pos k (gs @ f # hs) =
     firefliesAfter rnd pos k gs
     @ firefliesAfter rnd (\<lambda>j. pos j + length (firefliesAfter rnd pos j gs)) k [f]
     @ firefliesAfter rnd
         (\<lambda>j. pos j + length (firefliesAfter rnd pos j gs)
                   + length (firefliesAfter rnd
                       (\<lambda>i. pos i + length (firefliesAfter rnd pos i gs)) j [f])) k hs"
  using firefliesAfter_append [of rnd pos k gs "[f] @ hs"]
    firefliesAfter_append [of rnd "\<lambda>j. pos j + length (firefliesAfter rnd pos j gs)" k "[f]" hs]
  by (simp add: add.assoc)

lemma first_false:
  fixes life decay :: "'a \<Rightarrow> real"
  assumes step: "\<And>k q. life (fst (upd k q)) = life q - decay q \<and> decay (fst (upd k q)) = decay q"
    and res: "\<And>k q. snd (upd k q) = (0 < life (fst (upd k q)))"
    and pos: "0 < decay p" "0 < life p"
  shows "snd (upd k (updates upd k p)) = (k < nat (\<lceil>life p / decay p\<rceil> - 1))
       \<and> (0 < life (updates upd (Suc k) p)) = (k < nat (\<lceil>life p / decay p\<rceil> - 1))
       \<and> collectionAfter upd k [p] =
           (if k \<le> nat (\<lceil>life p / decay p\<rceil> - 1) then [updates upd k p] else [])"
  using lifecycle [of life upd decay p k, OF step res pos] res [of k "updates upd k p"]
  by simp


lemma spawnFireflies_refs:
  "particlesRef (spawnFireflies cp st sx sy b c a) = particlesRef a"
  "fallingLeavesRef (spawnFireflies cp st sx sy b c a) = fallingLeavesRef a"
  "\<exists>new. firefliesRef (spawnFireflies cp st sx sy b c a) = firefliesRef a @ new
      \<and> (\<forall>g \<in> set new. f_life g = 1)"
proof -
  show "particlesRef (spawnFireflies cp st sx sy b c a) = particlesRef a"
    by (simp add: spawnFireflies_def Let_def split_def spawnFirefly_refs)
  show "fallingLeavesRef (spawnFireflies cp st sx sy b c a) = fallingLeavesRef a"
    by (simp add: spawnFireflies_def Let_def split_def spawnFirefly_refs)
  obtain g where g: "f_life g = 1"
    "firefliesRef (spawnFirefly sx sy b c (snd (Math_random a))) = firefliesRef a @ [g]"
    using spawnFirefly_refs(3) [of sx sy b c "snd (Math_random a)"] by auto
  have "firefliesRef (spawnFireflies cp st sx sy b c a) = firefliesRef a @ []
      \<or> firefliesRef (spawnFireflies cp st sx sy b c a) = firefliesRef a @ [g]"
    using g(2) by (simp add: spawnFireflies_def Let_def split_def)
  with g(1) show "\<exists>new. firefliesRef (spawnFireflies cp st sx sy b c a) = firefliesRef a @ new
      \<and> (\<forall>g \<in> set new. f_life g = 1)"
    by (metis empty_iff empty_set set_ConsD)
qed

lemma spawnFallingLeaves_refs:
  "particlesRef (spawnFallingLeaves cp h sx sy b c a) = particlesRef a"
  "firefliesRef (spawnFallingLeaves cp h sx sy b c a) = firefliesRef a"
  "\<exists>new. fallingLeavesRef (spawnFallingLeaves cp h sx sy b c a) = fallingLeavesRef a @ new
      \<and> (\<forall>g \<in> set new. l_life g = 1)"
proof -
  show "particlesRef (spawnFallingLeaves cp h sx sy b c a) = particlesRef a"
    by (simp add: spawnFallingLeaves_def Let_def split_def spawnFallingLeaf_refs)
  show "firefliesRef (spawnFallingLeaves cp h sx sy b c a) = firefliesRef a"
    by (simp add: spawnFallingLeaves_def Let_def split_def spawnFallingLeaf_refs)
  obtain g where g: "l_life g = 1"
    "fallingLeavesRef (spawnFallingLeaf sx sy b c (snd (Math_random a))) = fallingLeavesRef a @ [g]"
    using spawnFallingLeaf_refs(3) [of sx sy b c "snd (Math_random a)"] by auto
  have "fallingLeavesRef (spawnFallingLeaves cp h sx sy b c a) = fallingLeavesRef a @ []
      \<or> fallingLeavesRef (spawnFallingLeaves cp h sx sy b c a) = fallingLeavesRef a @ [g]"
    using g(2) by (simp add: spawnFallingLeaves_def Let_def split_def)
  with g(1) show "\<exists>new. fallingLeavesRef (spawnFallingLeaves cp h sx sy b c a) = fallingLeavesRef a @ new
      \<and> (\<forall>g \<in> set new. l_life g = 1)"
    by (metis empty_iff empty_set set_ConsD)
qed

lemma spawn_shape:
  assumes "particlesRef a5 = P" "firefliesRef a5 = F" "fallingLeavesRef a5 = L"
  shows "particlesRef (spawnFallingLeaves cp h sx sy b c (spawnFireflies cp' st sx' sy' b' c' a5)) = P
       \<and> (\<exists>new. firefliesRef (spawnFallingLeaves cp h sx sy b c
                         (spawnFireflies cp' st sx' sy' b' c' a5)) = F @ new
            \<and> (\<forall>g \<in> set new. f_life g = 1))
       \<and> (\<exists>new. fallingLeavesRef (spawnFallingLeaves cp h sx sy b c
                         (spawnFireflies cp' st sx' sy' b' c' a5)) = L @ new
            \<and> (\<forall>g \<in> set new. l_life g = 1))"
  using spawnFireflies_refs [of cp' st sx' sy' b' c' a5]
    spawnFallingLeaves_refs [of cp h sx sy b c "spawnFireflies cp' st sx' sy' b' c' a5"] assms
  by simp

lemma animateParticles_step:
  assumes "animateParticles inp app = Inr app'"
  shows "particlesRef app' = filterUpdate Particle_update (particlesRef app @ treeParticles inp)
       \<and> (\<exists>new. firefliesRef app' =
              fst (filterFireflies (appRandom app) (appDraws app + treeDraws inp) (firefliesRef app))
              @ new
            \<and> (\<forall>g \<in> set new. f_life g = 1))
       \<and> (\<exists>new. fallingLeavesRef app' =
              filterUpdate FallingLeaf_update (fallingLeavesRef app) @ new
            \<and> (\<forall>h \<in> set new. l_life h = 1))"
proof (cases "repoData app")
  case None
  with assms show ?thesis by (simp add: animateParticles_def)
next
  case (Some repo)
  from assms Some have "\<exists>cp h sx sy b c cp' st sx' sy' b' c' a5.
      app' = spawnFallingLeaves cp h sx sy b c (spawnFireflies cp' st sx' sy' b' c' a5)
    \<and> particlesRef a5 = filterUpdate Particle_update (particlesRef app @ treeParticles inp)
    \<and> firefliesRef a5 =
        fst (filterFireflies (appRandom app) (appDraws app + treeDraws inp) (firefliesRef app))
    \<and> fallingLeavesRef a5 = filterUpdate FallingLeaf_update (fallingLeavesRef app)"
    apply (simp add: animateParticles_def Let_def split_def)
    apply (intro exI conjI)
       apply (erule sym)
      apply simp_all
    done
  then show ?thesis using spawn_shape by blast
qed


lemma firefliesAfter_single_len:
  assumes "0 < f_decay f" "0 < f_life f"
  shows "firefliesAfter rnd pos k [f] =
           (if k \<le> nat (\<lceil>f_life f / f_decay f\<rceil> - 1)
            then [updates (\<lambda>j. Firefly_update (rnd (pos j))) k f] else [])"
  using first_false [of f_life "\<lambda>j. Firefly_update (rnd (pos j))" f_decay f k, OF _ _ assms]
    firefliesAfter_single [OF assms, of rnd pos k]
  by (simp add: Firefly_update_life Firefly_update_result)

text \<open>
  Claim C9.  An update returns true exactly when the life that it leaves is positive.  A
  particle of each of the three kinds, as its constructor builds it from draws of
  \<open>Math.random\<close> in \<open>[0, 1)\<close>, has a number \<open>n\<close> such that its updates number \<open>0\<close> to
  \<open>n - 1\<close> return true and leave a positive life, and update number \<open>n\<close> returns false:
  it is the first that leaves a life that is not positive.  In whatever collection the
  particle is, before and behind whatever other members, it is in the collection after
  \<open>k\<close> frames of update and filter for every \<open>k \<le> n\<close>, updated \<open>k\<close> times, and it
  is not after more frames: the frame of update number \<open>n\<close> removes it, no further update
  of it takes place, and false is returned once.  The other members are kept or removed
  as if it were not there.  A call of \<open>animateParticles\<close> replaces each collection by
  its members whose update has returned true, followed by what the call has spawned with
  the life \<open>1\<close>, and at its end, where \<open>renderFrame\<close> runs, every particle, firefly and
  leaf that is drawn has a positive life.
\<close>

theorem particle_lifecycle:
  assumes "\<forall>i. 0 \<le> rnd i \<and> rnd i < 1"
    and "p = newParticle x y c rnd m"
    and "f = newFirefly fx fy c bd rnd m"
    and "l = newFallingLeaf lx ly c rnd m"
  shows "snd (Particle_update q) = (0 < p_life (fst (Particle_update q)))
       \<and> snd (Firefly_update u g) = (0 < f_life (fst (Firefly_update u g)))
       \<and> snd (FallingLeaf_update h) = (0 < l_life (fst (FallingLeaf_update h)))
       \<and> (\<exists>n. \<forall>k qs rs.
             snd (Particle_update (updates (\<lambda>j. Particle_update) k p)) = (k < n)
           \<and> (0 < p_life (updates (\<lambda>j. Particle_update) (Suc k) p)) = (k < n)
           \<and> collectionAfter (\<lambda>j. Particle_update) k (qs @ p # rs) =
               collectionAfter (\<lambda>j. Particle_update) k qs
               @ (if k \<le> n then [updates (\<lambda>j. Particle_update) k p] else [])
               @ collectionAfter (\<lambda>j. Particle_update) k rs)
       \<and> (\<exists>n. \<forall>k gs hs us.
             snd (Firefly_update (us k) (updates (\<lambda>j. Firefly_update (us j)) k f)) = (k < n)
           \<and> (0 < f_life (updates (\<lambda>j. Firefly_update (us j)) (Suc k) f)) = (k < n)
           \<and> firefliesAfter rnd' pos k (gs @ f # hs) =
               firefliesAfter rnd' pos k gs
               @ (if k \<le> n
                  then [updates (\<lambda>j. Firefly_update
                                   (rnd' (pos j + length (firefliesAfter rnd' pos j gs)))) k f]
                  else [])
               @ firefliesAfter rnd'
                   (\<lambda>j. pos j + length (firefliesAfter rnd' pos j gs) + (if j \<le> n then 1 else 0))
                   k hs)
       \<and> (\<exists>n. \<forall>k qs rs.
             snd (FallingLeaf_update (updates (\<lambda>j. FallingLeaf_update) k l)) = (k < n)
           \<and> (0 < l_life (updates (\<lambda>j. FallingLeaf_update) (Suc k) l)) = (k < n)
           \<and> collectionAfter (\<lambda>j. FallingLeaf_update) k (qs @ l # rs) =
               collectionAfter (\<lambda>j. FallingLeaf_update) k qs
               @ (if k \<le> n then [updates (\<lambda>j. FallingLeaf_update) k l] else [])
               @ collectionAfter (\<lambda>j. FallingLeaf_update) k rs)
       \<and> (animateParticles inp app = Inr app' \<longrightarrow>
             particlesRef app' = filterUpdate Particle_update (particlesRef app @ treeParticles inp)
           \<and> (\<exists>new. firefliesRef app' =
                  fst (filterFireflies (appRandom app) (appDraws app + treeDraws inp)
                         (firefliesRef app)) @ new
                \<and> (\<forall>a \<in> set new. f_life a = 1))
           \<and> (\<exists>new. fallingLeavesRef app' =
                  filterUpdate FallingLeaf_update (fallingLeavesRef app) @ new
                \<and> (\<forall>a \<in> set new. l_life a = 1))
           \<and> (\<forall>a \<in> set (fst (renderFrame app')). 0 < p_life a)
           \<and> (\<forall>a \<in> set (fst (snd (renderFrame app'))). 0 < f_life a)
           \<and> (\<forall>a \<in> set (snd (snd (renderFrame app'))). 0 < l_life a))"
proof -
  from assms have pp: "0 < p_decay p" "0 < p_life p"
    by (simp_all add: newParticle_def)
  from assms(1) have r4: "0 \<le> rnd (m + 4)" and r2: "0 \<le> rnd (m + 2)" by simp_all
  from assms(3) r4 have fp: "0 < f_decay f" "0 < f_life f"
    by (simp_all add: newFirefly_def)
  from assms(4) r2 have lp: "0 < l_decay l" "0 < l_life l"
    by (simp_all add: newFallingLeaf_def)
  have R: "snd (Particle_update q) = (0 < p_life (fst (Particle_update q)))"
    "snd (Firefly_update u g) = (0 < f_life (fst (Firefly_update u g)))"
    "snd (FallingLeaf_update h) = (0 < l_life (fst (FallingLeaf_update h)))"
    by (rule Particle_update_result, rule Firefly_update_result, rule FallingLeaf_update_result)
  have A: "\<exists>n. \<forall>k qs rs.
             snd (Particle_update (updates (\<lambda>j. Particle_update) k p)) = (k < n)
           \<and> (0 < p_life (updates (\<lambda>j. Particle_update) (Suc k) p)) = (k < n)
           \<and> collectionAfter (\<lambda>j. Particle_update) k (qs @ p # rs) =
               collectionAfter (\<lambda>j. Particle_update) k qs
               @ (if k \<le> n then [updates (\<lambda>j. Particle_update) k p] else [])
               @ collectionAfter (\<lambda>j. Particle_update) k rs"
  proof (intro exI [of _ "nat (\<lceil>p_life p / p_decay p\<rceil> - 1)"] allI)
    fix k qs rs
    from first_false [of p_life "\<lambda>j. Particle_update" p_decay p k, OF _ _ pp]
    show "snd (Particle_update (updates (\<lambda>j. Particle_update) k p))
              = (k < nat (\<lceil>p_life p / p_decay p\<rceil> - 1))
           \<and> (0 < p_life (updates (\<lambda>j. Particle_update) (Suc k) p))
              = (k < nat (\<lceil>p_life p / p_decay p\<rceil> - 1))
           \<and> collectionAfter (\<lambda>j. Particle_update) k (qs @ p # rs) =
               collectionAfter (\<lambda>j. Particle_update) k qs
               @ (if k \<le> nat (\<lceil>p_life p / p_decay p\<rceil> - 1)
                  then [updates (\<lambda>j. Particle_update) k p] else [])
               @ collectionAfter (\<lambda>j. Particle_update) k rs"
      by (simp add: collectionAfter_member [of _ k qs p rs] Particle_update_life
          Particle_update_result)
  qed
  have C: "\<exists>n. \<forall>k qs rs.
             snd (FallingLeaf_update (updates (\<lambda>j. FallingLeaf_update) k l)) = (k < n)
           \<and> (0 < l_life (updates (\<lambda>j. FallingLeaf_update) (Suc k) l)) = (k < n)
           \<and> collectionAfter (\<lambda>j. FallingLeaf_update) k (qs @ l # rs) =
               collectionAfter (\<lambda>j. FallingLeaf_update) k qs
               @ (if k \<le> n then [updates (\<lambda>j. FallingLeaf_update) k l] else [])
               @ collectionAfter (\<lambda>j. FallingLeaf_update) k rs"
  proof (intro exI [of _ "nat (\<lceil>l_life l / l_decay l\<rceil> - 1)"] allI)
    fix k qs rs
    from first_false [of l_life "\<lambda>j. FallingLeaf_update" l_decay l k, OF _ _ lp]
    show "snd (FallingLeaf_update (updates (\<lambda>j. FallingLeaf_update) k l))
              = (k < nat (\<lceil>l_life l / l_decay l\<rceil> - 1))
           \<and> (0 < l_life (updates (\<lambda>j. FallingLeaf_update) (Suc k) l))
              = (k < nat (\<lceil>l_life l / l_decay l\<rceil> - 1))
           \<and> collectionAfter (\<lambda>j. FallingLeaf_update) k (qs @ l # rs) =
               collectionAfter (\<lambda>j. FallingLeaf_update) k qs
               @ (if k \<le> nat (\<lceil>l_life l / l_decay l\<rceil> - 1)
                  then [updates (\<lambda>j. FallingLeaf_update) k l] else [])
               @ collectionAfter (\<lambda>j. FallingLeaf_update) k rs"
      by (simp add: collectionAfter_member [of _ k qs l rs] FallingLeaf_update_life
          FallingLeaf_update_result)
  qed
  have B: "\<exists>n. \<forall>k gs hs us.
             snd (Firefly_update (us k) (updates (\<lambda>j. Firefly_update (us j)) k f)) = (k < n)
           \<and> (0 < f_life (updates (\<lambda>j. Firefly_update (us j)) (Suc k) f)) = (k < n)
           \<and> firefliesAfter rnd' pos k (gs @ f # hs) =
               firefliesAfter rnd' pos k gs
               @ (if k \<le> n
                  then [updates (\<lambda>j. Firefly_update
                                   (rnd' (pos j + length (firefliesAfter rnd' pos j gs)))) k f]
                  else [])
               @ firefliesAfter rnd'
                   (\<lambda>j. pos j + length (firefliesAfter rnd' pos j gs) + (if j \<le> n then 1 else 0))
                   k hs"
  proof (intro exI [of _ "nat (\<lceil>f_life f / f_decay f\<rceil> - 1)"] allI)
    fix k gs hs and us :: "nat \<Rightarrow> real"
    let ?n = "nat (\<lceil>f_life f / f_decay f\<rceil> - 1)"
    have len: "length (firefliesAfter rnd'
                 (\<lambda>i. pos i + length (firefliesAfter rnd' pos i gs)) j [f])
               = (if j \<le> ?n then 1 else 0)" for j
      by (simp add: firefliesAfter_single_len [OF fp])
    from first_false [of f_life "\<lambda>j. Firefly_update (us j)" f_decay f k, OF _ _ fp]
    have one: "snd (Firefly_update (us k) (updates (\<lambda>j. Firefly_update (us j)) k f)) = (k < ?n)
       \<and> (0 < f_life (updates (\<lambda>j. Firefly_update (us j)) (Suc k) f)) = (k < ?n)"
      by (simp add: Firefly_update_life Firefly_update_result)
    have coll: "firefliesAfter rnd' pos k (gs @ f # hs) =
               firefliesAfter rnd' pos k gs
               @ (if k \<le> ?n
                  then [updates (\<lambda>j. Firefly_update
                                   (rnd' (pos j + length (firefliesAfter rnd' pos j gs)))) k f]
                  else [])
               @ firefliesAfter rnd'
                   (\<lambda>j. pos j + length (firefliesAfter rnd' pos j gs) + (if j \<le> ?n then 1 else 0))
                   k hs"
      unfolding firefliesAfter_member [of rnd' pos k gs f hs] len
      by (simp only: firefliesAfter_single_len [OF fp])
    from one coll
    show "snd (Firefly_update (us k) (updates (\<lambda>j. Firefly_update (us j)) k f)) = (k < ?n)
       \<and> (0 < f_life (updates (\<lambda>j. Firefly_update (us j)) (Suc k) f)) = (k < ?n)
       \<and> firefliesAfter rnd' pos k (gs @ f # hs) =
               firefliesAfter rnd' pos k gs
               @ (if k \<le> ?n
                  then [updates (\<lambda>j. Firefly_update
                                   (rnd' (pos j + length (firefliesAfter rnd' pos j gs)))) k f]
                  else [])
               @ firefliesAfter rnd'
                   (\<lambda>j. pos j + length (firefliesAfter rnd' pos j gs) + (if j \<le> ?n then 1 else 0))
                   k hs"
      by blast
  qed
  have D: "animateParticles inp app = Inr app' \<longrightarrow>
             particlesRef app' = filterUpdate Particle_update (particlesRef app @ treeParticles inp)
           \<and> (\<exists>new. firefliesRef app' =
                  fst (filterFireflies (appRandom app) (appDraws app + treeDraws inp)
                         (firefliesRef app)) @ new
                \<and> (\<forall>a \<in> set new. f_life a = 1))
           \<and> (\<exists>new. fallingLeavesRef app' =
                  filterUpdate FallingLeaf_update (fallingLeavesRef app) @ new
                \<and> (\<forall>a \<in> set new. l_life a = 1))
           \<and> (\<forall>a \<in> set (fst (renderFrame app')). 0 < p_life a)
           \<and> (\<forall>a \<in> set (fst (snd (renderFrame app'))). 0 < f_life a)
           \<and> (\<forall>a \<in> set (snd (snd (renderFrame app'))). 0 < l_life a)"
    using animateParticles_alive [of inp app app'] animateParticles_step [of inp app app']
    by (simp add: allAlive_def renderFrame_def)
  from R A B C D show ?thesis by (intro conjI)
qed


theorem particle_lifecycle_witness:
  "(\<forall>i. 0 \<le> (\<lambda>n. 1 / 2 :: real) i \<and> (\<lambda>n. 1 / 2 :: real) i < 1)
   \<and> (\<exists>n. \<forall>k.
         snd (Particle_update
               (updates (\<lambda>j. Particle_update) k (newParticle 700 200 ''#f7df1e'' (\<lambda>n. 1 / 2) 0)))
           = (k < n)
       \<and> (0 < p_life (updates (\<lambda>j. Particle_update) (Suc k)
                         (newParticle 700 200 ''#f7df1e'' (\<lambda>n. 1 / 2) 0))) = (k < n)
       \<and> collectionAfter (\<lambda>j. Particle_update) k
           [newParticle 0 0 ''#f7df1e'' (\<lambda>n. 1 / 2) 0,
            newParticle 700 200 ''#f7df1e'' (\<lambda>n. 1 / 2) 0] =
           collectionAfter (\<lambda>j. Particle_update) k [newParticle 0 0 ''#f7df1e'' (\<lambda>n. 1 / 2) 0]
           @ (if k \<le> n
              then [updates (\<lambda>j. Particle_update) k (newParticle 700 200 ''#f7df1e'' (\<lambda>n. 1 / 2) 0)]
              else []))
   \<and> (\<exists>app'. animateParticles firstFrame (staleApp\<lparr>growthProgressRef := 0\<rparr>) = Inr app'
         \<and> (\<forall>q \<in> set (fst (snd (renderFrame app'))). 0 < f_life q)
         \<and> fst (snd (renderFrame app')) \<noteq> []
         \<and> particlesRef app' =
             filterUpdate Particle_update (particlesRef (staleApp\<lparr>growthProgressRef := 0\<rparr>)))"
proof -
  let ?p = "newParticle 700 200 ''#f7df1e'' (\<lambda>n. 1 / 2) 0"
  let ?q = "newParticle 0 0 ''#f7df1e'' (\<lambda>n. 1 / 2) 0"
  obtain app' where a: "animateParticles firstFrame (staleApp\<lparr>growthProgressRef := 0\<rparr>) = Inr app'"
    and ne: "firefliesRef app' \<noteq> []"
    by (simp add: animateParticles_def staleApp_def firstFrame_def at_index_def MOCK_REPOS_def
        Let_def split_def spawnFireflies_def spawnFallingLeaves_def staleFirefly_def
        newFirefly_def Firefly_update_def)
  have tp: "treeParticles firstFrame = []"
    by (simp add: firstFrame_def)
  have rg: "\<forall>i. 0 \<le> (\<lambda>n. 1 / 2 :: real) i \<and> (\<lambda>n. 1 / 2 :: real) i < 1"
    by simp
  note T = particle_lifecycle [where rnd = "\<lambda>n. 1 / 2" and x = 700 and y = 200 and c = "''#f7df1e''"
      and m = 0 and fx = 700 and fy = "Num 400" and bd = None and lx = 700 and ly = "Num 300"
      and inp = firstFrame and app = "staleApp\<lparr>growthProgressRef := 0\<rparr>" and app' = app'
      and q = ?q and u = 0 and g = staleFirefly and h = staleLeaf and rnd' = "\<lambda>n. 1 / 2"
      and pos = "\<lambda>j. 0", OF rg refl refl refl]
  from T [THEN conjunct2, THEN conjunct2, THEN conjunct2, THEN conjunct1]
  obtain n where n: "\<And>k qs rs.
         snd (Particle_update (updates (\<lambda>j. Particle_update) k ?p)) = (k < n)
       \<and> (0 < p_life (updates (\<lambda>j. Particle_update) (Suc k) ?p)) = (k < n)
       \<and> collectionAfter (\<lambda>j. Particle_update) k (qs @ ?p # rs) =
           collectionAfter (\<lambda>j. Particle_update) k qs
           @ (if k \<le> n then [updates (\<lambda>j. Particle_update) k ?p] else [])
           @ collectionAfter (\<lambda>j. Particle_update) k rs"
    by blast
  have e: "collectionAfter (\<lambda>j. Particle_update) k [] = []" for k
    by (induction k) (simp_all add: filterUpdate_Nil)
  have first: "\<forall>k.
         snd (Particle_update (updates (\<lambda>j. Particle_update) k ?p)) = (k < n)
       \<and> (0 < p_life (updates (\<lambda>j. Particle_update) (Suc k) ?p)) = (k < n)
       \<and> collectionAfter (\<lambda>j. Particle_update) k [?q, ?p] =
           collectionAfter (\<lambda>j. Particle_update) k [?q]
           @ (if k \<le> n then [updates (\<lambda>j. Particle_update) k ?p] else [])"
  proof
    fix k
    from n [of k "[?q]" "[]"] show "snd (Particle_update (updates (\<lambda>j. Particle_update) k ?p)) = (k < n)
       \<and> (0 < p_life (updates (\<lambda>j. Particle_update) (Suc k) ?p)) = (k < n)
       \<and> collectionAfter (\<lambda>j. Particle_update) k [?q, ?p] =
           collectionAfter (\<lambda>j. Particle_update) k [?q]
           @ (if k \<le> n then [updates (\<lambda>j. Particle_update) k ?p] else [])"
      by (simp only: e append_Nil2 append_Cons append_Nil)
  qed
  from T [THEN conjunct2, THEN conjunct2, THEN conjunct2, THEN conjunct2, THEN conjunct2,
      THEN conjunct2] a
  have fr: "particlesRef app' =
          filterUpdate Particle_update
            (particlesRef (staleApp\<lparr>growthProgressRef := 0\<rparr>) @ treeParticles firstFrame)
      \<and> (\<forall>a \<in> set (fst (snd (renderFrame app'))). 0 < f_life a)"
    by blast
  have second: "\<exists>app'. animateParticles firstFrame (staleApp\<lparr>growthProgressRef := 0\<rparr>) = Inr app'
         \<and> (\<forall>q \<in> set (fst (snd (renderFrame app'))). 0 < f_life q)
         \<and> fst (snd (renderFrame app')) \<noteq> []
         \<and> particlesRef app' =
             filterUpdate Particle_update (particlesRef (staleApp\<lparr>growthProgressRef := 0\<rparr>))"
    using fr a ne tp by (intro exI [of _ app']) (simp add: renderFrame_def)
  from rg first second show ?thesis by blast
qed

subsection \<open>The metric mapping\<close>

lemma log10_scaled_ge:
  fixes x :: real
  assumes "0 < x"
  shows "(real k \<le> log 10 x * 1.6) = (10 ^ (5 * k) \<le> x ^ 8)"
proof -
  have "(real k \<le> log 10 x * 1.6) = (real (5 * k) \<le> 8 * log 10 x)"
    by (simp add: mult.commute)
  also have "8 * log 10 x = log 10 (x ^ 8)"
    using assms by (simp add: log_nat_power)
  also have "(real (5 * k) \<le> log 10 (x ^ 8)) = (10 powr real (5 * k) \<le> x ^ 8)"
    using assms by (intro le_log_iff) simp_all
  also have "10 powr real (5 * k) = (10::real) ^ (5 * k)"
    using powr_realpow [of "10::real" "5 * k"] by simp
  finally show ?thesis .
qed

lemma floor_log10_scaled:
  fixes x :: real
  assumes "0 < x" "10 ^ (5 * k) \<le> x ^ 8" "x ^ 8 < 10 ^ (5 * Suc k)"
  shows "\<lfloor>log 10 x * 1.6\<rfloor> = int k"
proof -
  have "real k \<le> log 10 x * 1.6"
    using assms(1,2) by (simp only: log10_scaled_ge)
  moreover have "\<not> real (Suc k) \<le> log 10 x * 1.6"
    using assms(1,3) by (simp only: log10_scaled_ge [OF assms(1)] not_le)
  ultimately show ?thesis
    by (intro floor_unique) simp_all
qed

lemma Math_max_Num: "Math_max (Num a) (Num b) = Num (max a b)"
  by (simp add: Math_max_def max_def)

lemma Math_min_Num: "Math_min (Num a) (Num b) = Num (min a b)"
  by (simp add: Math_min_def min_def)

lemma tp_maxDepth_Num:
  assumes "commitCount data = Num c" "0 \<le> c"
  shows "tp_maxDepth (treeParams now data progress animationTime) =
           Num (of_int (min 10 (max 4 \<lfloor>log 10 (c + 1) * 1.6\<rfloor>)))"
  using assms by (simp add: treeParams_def Let_def Math_max_Num Math_min_Num)


lemma depth_mono:
  fixes c c' :: real
  assumes "0 \<le> c" "c \<le> c'"
  shows "min 10 (max 4 \<lfloor>log 10 (c + 1) * 1.6\<rfloor>) \<le> min 10 (max 4 \<lfloor>log 10 (c' + 1) * 1.6\<rfloor>)"
proof -
  from assms have "log 10 (c + 1) \<le> log 10 (c' + 1)"
    by simp
  then have "\<lfloor>log 10 (c + 1) * 1.6\<rfloor> \<le> \<lfloor>log 10 (c' + 1) * 1.6\<rfloor>"
    by (intro floor_mono) simp
  then show ?thesis by simp
qed

lemma depth_0: "\<lfloor>log 10 (0 + 1) * 1.6 :: real\<rfloor> = 0"
  by simp

lemma depth_100000: "\<lfloor>log 10 (100000 + 1) * 1.6 :: real\<rfloor> = 8"
  using floor_log10_scaled [of 100001 8] by simp

text \<open>
  Claim C4, as the program has it.  For a commit count \<open>c\<close> that is a natural number,
  the depth \<open>min(10, max(4, floor(log10(c + 1) * 1.6)))\<close> is an integer between 4 and 10
  and does not decrease when \<open>c\<close> grows; the depth of 0 commits is 4 and the depth of
  100000 commits is 8 (not 10: the depth 10 needs \<open>log10(c + 1) \<ge> 6.25\<close>, more than
  1.7 million commits).
\<close>

theorem maxDepth_monotone_bounded:
  "\<exists>d d'. tp_maxDepth (treeParams now (data\<lparr>commitCount := Num (real c)\<rparr>) progress animationTime)
            = Num (of_int d)
        \<and> tp_maxDepth (treeParams now (data\<lparr>commitCount := Num (real c')\<rparr>) progress animationTime)
            = Num (of_int d')
        \<and> 4 \<le> d \<and> d \<le> 10 \<and> (c \<le> c' \<longrightarrow> d \<le> d')
        \<and> tp_maxDepth (treeParams now (data\<lparr>commitCount := Num 0\<rparr>) progress animationTime) = Num 4
        \<and> tp_maxDepth (treeParams now (data\<lparr>commitCount := Num 100000\<rparr>) progress animationTime)
            = Num 8"
proof -
  let ?d = "\<lambda>c::real. min 10 (max 4 \<lfloor>log 10 (c + 1) * 1.6\<rfloor>)"
  have eq: "tp_maxDepth (treeParams now (data\<lparr>commitCount := Num x\<rparr>) progress animationTime)
              = Num (of_int (?d x))" if "0 \<le> x" for x
    using that by (intro tp_maxDepth_Num) simp_all
  have z: "tp_maxDepth (treeParams now (data\<lparr>commitCount := Num 0\<rparr>) progress animationTime) = Num 4"
    using eq [of 0] by simp
  have h: "tp_maxDepth (treeParams now (data\<lparr>commitCount := Num 100000\<rparr>) progress animationTime) = Num 8"
    using eq [of 100000] depth_100000 by simp
  have m: "c \<le> c' \<longrightarrow> ?d (real c) \<le> ?d (real c')"
    using depth_mono [of "real c" "real c'"] by simp
  have b: "4 \<le> ?d (real c) \<and> ?d (real c) \<le> 10" by simp
  from eq [of "real c"] eq [of "real c'"] z h m b show ?thesis
    by (intro exI [of _ "?d (real c)"] exI [of _ "?d (real c')"]) simp
qed

theorem maxDepth_monotone_bounded_witness:
  "(234 :: nat) \<le> 15234
   \<and> (\<exists>d d'. tp_maxDepth (treeParams 1706745600000 (helloWorld\<lparr>commitCount := Num (real (234 :: nat))\<rparr>) 1 0)
                = Num (of_int d)
        \<and> tp_maxDepth (treeParams 1706745600000 (helloWorld\<lparr>commitCount := Num (real (15234 :: nat))\<rparr>) 1 0)
                = Num (of_int d')
        \<and> 4 \<le> d \<and> d \<le> 10 \<and> d \<le> d')"
proof -
  have le: "(234 :: nat) \<le> 15234" by simp
  from maxDepth_monotone_bounded [of 1706745600000 234 helloWorld 1 0 15234] le
  show ?thesis by blast
qed

text \<open>The claim as stated gives 100000 commits the depth 10; the program gives 8.\<close>

theorem maxDepth_100000_counterexample:
  "tp_maxDepth (treeParams 1706745600000 (helloWorld\<lparr>commitCount := Num 100000\<rparr>) 1 0) \<noteq> Num 10"
proof -
  have "tp_maxDepth (treeParams 1706745600000 (helloWorld\<lparr>commitCount := Num 100000\<rparr>) 1 0)
          = Num (of_int (min 10 (max 4 \<lfloor>log 10 (100000 + 1) * 1.6\<rfloor>)))"
    by (intro tp_maxDepth_Num) simp_all
  then show ?thesis unfolding depth_100000 by simp
qed

subsection \<open>The call tree of the branch renderer\<close>

lemma callBound_eq: "3 * callBound k + 1 = 4 ^ Suc k"
  by (induction k) simp_all

lemma random_next_frames [simp]: "frames (snd (random_next s)) = frames s"
  by (simp add: random_next_def split_def Let_def)

lemma ctx_frames [simp]: "frames (ctx ops s) = frames s"
  by (simp add: ctx_def)

lemma pushParticle_frames [simp]: "frames (pushParticle x y c s) = frames s"
  by (simp add: pushParticle_def split: option.split)

lemma drawSegment_frames [simp]:
  "frames (snd (drawSegment x y len angle depth maxDepth color health metrics s)) = frames s"
  by (simp add: drawSegment_def Let_def split_def)

lemma drawLeaf_frames [simp]:
  "frames (drawLeaf ex ey w opacity color health glow l s) = frames s"
  by (simp add: drawLeaf_def Let_def split_def)

lemma fold_frames_same:
  assumes "\<And>x t. frames (f x t) = frames t"
  shows "frames (fold f xs s) = frames s"
  using assms by (induction xs arbitrary: s) simp_all

lemma drawLeaves_frames [simp]:
  "frames (drawLeaves ex ey w opacity depth maxDepth color health metrics s) = frames s"
  by (simp add: drawLeaves_def Let_def split_def fold_frames_same)

lemma chooseBranchCount_frames [simp]:
  "frames (snd (chooseBranchCount depth metrics s)) = frames s"
  by (simp add: chooseBranchCount_def Let_def split_def)

lemma chooseBranchCount_le: "fst (chooseBranchCount depth metrics s) \<le> 4"
  by (simp add: chooseBranchCount_def Let_def split_def)

lemma chooseBranchCount_trunk: "depth < 2 \<Longrightarrow> fst (chooseBranchCount depth metrics s) = 2"
  by (simp add: chooseBranchCount_def Let_def split_def)

lemma childBranch_frames [simp]:
  "frames (snd (childBranch len a health metrics s)) = frames s"
  by (simp add: childBranch_def Let_def split_def)

lemma deepensByOne_append:
  assumes "deepensByOne u" "deepensByOne v"
    and "u \<noteq> [] \<Longrightarrow> v \<noteq> [] \<Longrightarrow> bn_depth (hd v) \<le> bn_depth (last u) + 1"
  shows "deepensByOne (u @ v)"
  using assms
proof (induction u)
  case Nil
  then show ?case by simp
next
  case (Cons a u)
  show ?case
  proof (cases u)
    case Nil
    with Cons.prems show ?thesis by (cases v) simp_all
  next
    case (Cons b w)
    with Cons.prems Cons.IH show ?thesis by simp
  qed
qed

lemma nested_Nil: "nested d m []"
  by (simp add: nested_def)

lemma nested_append:
  assumes "nested d m u" "nested d m v"
  shows "nested d m (u @ v)"
proof -
  have "bn_depth (hd v) \<le> bn_depth (last u) + 1" if "u \<noteq> []" "v \<noteq> []"
  proof -
    from that(1) have "last u \<in> set u" by simp
    with assms(1) have "d < bn_depth (last u)" by (simp add: nested_def)
    moreover from assms(2) that(2) have "bn_depth (hd v) = d + 1" by (simp add: nested_def)
    ultimately show ?thesis by simp
  qed
  with assms have "deepensByOne (u @ v)"
    by (intro deepensByOne_append) (simp_all add: nested_def)
  with assms show ?thesis
    by (auto simp: nested_def hd_append)
qed

lemma nested_top:
  assumes "nested d m rest"
  shows "deepensByOne (node x y len angle d # rest)"
  using assms by (cases rest) (simp_all add: nested_def node_def)

lemma nested_child:
  assumes "d \<le> m" "nested (d + 1) m rest"
  shows "nested d m (node x y len angle (d + 1) # rest)"
proof -
  from assms(2) have "deepensByOne (node x y len angle (d + 1) # rest)"
    by (rule nested_top)
  with assms show ?thesis
    by (auto simp: nested_def node_def)
qed

text \<open>A loop whose turns each append frames appends the frames of all its turns.\<close>

lemma fold_appends:
  assumes step: "\<And>x t. x \<in> set xs \<Longrightarrow>
             \<exists>new. frames (f x t) = frames t @ new \<and> length new \<le> b \<and> R new"
    and nil: "R []" and app: "\<And>u v. R u \<Longrightarrow> R v \<Longrightarrow> R (u @ v)"
  shows "\<exists>new. frames (fold f xs s) = frames s @ new \<and> length new \<le> length xs * b \<and> R new"
  using step
proof (induction xs arbitrary: s)
  case Nil
  show ?case by (simp add: nil)
next
  case (Cons x xs)
  from Cons.prems [of x s] obtain n1 where
    n1: "frames (f x s) = frames s @ n1" "length n1 \<le> b" "R n1"
    by auto
  from Cons.IH [of "f x s"] Cons.prems obtain n2 where
    n2: "frames (fold f xs (f x s)) = frames (f x s) @ n2" "length n2 \<le> length xs * b" "R n2"
    by auto
  from n1 n2 app [of n1 n2] show ?case
    by (intro exI [of _ "n1 @ n2"]) simp
qed

lemma drawBranch_return:
  assumes "depth > maxDepth \<or> len < 2"
  shows "drawBranch x y len angle depth maxDepth color health metrics s =
           s\<lparr>frames := frames s @ [node x y len angle depth]\<rparr>"
  using assms by (subst drawBranch.simps) (auto simp: Let_def node_def)

text \<open>One call, given a bound on what each of its children appends.\<close>

lemma drawBranch_step:
  assumes ch: "\<And>x' y' len' a' t.
      \<exists>new. frames (drawBranch x' y' len' a' (depth + 1) maxDepth color health metrics t)
               = frames t @ new \<and> length new \<le> c \<and> R new"
    and nil: "R []" and app: "\<And>u v. R u \<Longrightarrow> R v \<Longrightarrow> R (u @ v)"
  shows "\<exists>rest. frames (drawBranch x y len angle depth maxDepth color health metrics s)
               = frames s @ node x y len angle depth # rest
           \<and> length rest \<le> (if depth < 2 then 2 else 4) * c \<and> R rest"
proof (cases "depth > maxDepth \<or> len < 2")
  case True
  then show ?thesis by (simp add: drawBranch_return nil)
next
  case False
  define s0 where "s0 = s\<lparr>frames := frames s @ [node x y len angle depth]\<rparr>"
  define seg where "seg = drawSegment x y len angle depth maxDepth color health metrics s0"
  define s2 where "s2 = drawLeaves (fst (fst seg)) (fst (snd (fst seg)))
      (fst (snd (snd (snd (fst seg))))) (snd (snd (snd (snd (fst seg)))))
      depth maxDepth color health metrics (snd seg)"
  define bc where "bc = chooseBranchCount depth metrics s2"
  define F where "F = (\<lambda>(i::nat) t.
      drawBranch (fst (fst seg)) (fst (snd (fst seg)))
        (fst (fst (childBranch len (fst (snd (snd (fst seg)))) health metrics t)))
        (snd (fst (childBranch len (fst (snd (snd (fst seg)))) health metrics t)))
        (depth + 1) maxDepth color health metrics
        (snd (childBranch len (fst (snd (snd (fst seg)))) health metrics t)))"
  have unfold: "drawBranch x y len angle depth maxDepth color health metrics s
                  = fold F [0..<fst bc] (snd bc)"
    using False
    by (subst drawBranch.simps)
       (simp add: Let_def split_def s0_def seg_def s2_def bc_def F_def node_def)
  have fr: "frames (snd bc) = frames s @ [node x y len angle depth]"
    by (simp add: bc_def s2_def seg_def s0_def)
  have "\<exists>new. frames (F i t) = frames t @ new \<and> length new \<le> c \<and> R new" for i t
    unfolding F_def
    using ch [of _ _ _ _ "snd (childBranch len (fst (snd (snd (fst seg)))) health metrics t)"]
    by simp
  from fold_appends [of "[0..<fst bc]" F c R "snd bc", OF this nil app]
  obtain new where new: "frames (fold F [0..<fst bc] (snd bc)) = frames (snd bc) @ new"
    "length new \<le> fst bc * c" "R new"
    by auto
  have "fst bc \<le> (if depth < 2 then 2 else 4)"
    using chooseBranchCount_le [of depth metrics s2] chooseBranchCount_trunk [of depth metrics s2]
    by (auto simp: bc_def)
  then have "fst bc * c \<le> (if depth < 2 then 2 else 4) * c"
    by (rule mult_le_mono1)
  with new(2) have "length new \<le> (if depth < 2 then 2 else 4) * c"
    by (rule order_trans)
  with new(1,3) fr unfold show ?thesis
    by (intro exI [of _ new]) simp
qed

lemma drawBranch_calls:
  assumes "nat (maxDepth + 1 - depth) = k"
  shows "\<exists>rest. frames (drawBranch x y len angle depth maxDepth color health metrics s)
               = frames s @ node x y len angle depth # rest
           \<and> Suc (length rest) \<le> callBound k
           \<and> nested depth maxDepth rest"
  using assms
proof (induction k arbitrary: x y len angle depth s)
  case 0
  then have "depth > maxDepth" by simp
  then show ?case by (simp add: drawBranch_return nested_Nil)
next
  case (Suc k)
  then have d: "depth \<le> maxDepth" and k: "nat (maxDepth + 1 - (depth + 1)) = k"
    by simp_all
  have "\<exists>new. frames (drawBranch x' y' len' a' (depth + 1) maxDepth color health metrics t)
               = frames t @ new \<and> length new \<le> callBound k \<and> nested depth maxDepth new"
    for x' y' len' a' t
  proof -
    from Suc.IH [OF k, of x' y' len' a' t] obtain rest where
      r: "frames (drawBranch x' y' len' a' (depth + 1) maxDepth color health metrics t)
            = frames t @ node x' y' len' a' (depth + 1) # rest"
         "Suc (length rest) \<le> callBound k"
         "nested (depth + 1) maxDepth rest"
      by blast
    from nested_child [OF d r(3)] r(1,2) show ?thesis
      by (intro exI [of _ "node x' y' len' a' (depth + 1) # rest"]) simp
  qed
  from drawBranch_step [of depth maxDepth color health metrics "callBound k"
      "nested depth maxDepth" x y len angle s, OF this nested_Nil nested_append]
  obtain rest where
    r: "frames (drawBranch x y len angle depth maxDepth color health metrics s)
          = frames s @ node x y len angle depth # rest"
       "length rest \<le> (if depth < 2 then 2 else 4) * callBound k"
       "nested depth maxDepth rest"
    by blast
  from r(2) have "Suc (length rest) \<le> callBound (Suc k)"
    by (simp split: if_splits)
  with r(1,3) show ?case by blast
qed

text \<open>From the trunk, where the first two levels have two children each.\<close>

lemma drawBranch_calls_trunk:
  "\<exists>rest. frames (drawBranch x y len angle 0 maxDepth color health metrics s)
               = frames s @ node x y len angle 0 # rest
           \<and> Suc (length rest) \<le> 4 ^ nat (maxDepth + 1)"
proof -
  consider "maxDepth < 0" | "maxDepth = 0" | "1 \<le> maxDepth" by linarith
  then show ?thesis
  proof cases
    case 1
    then show ?thesis by (simp add: drawBranch_return)
  next
    case 2
    have "\<exists>new. frames (drawBranch x' y' len' a' (0 + 1) maxDepth color health metrics t)
               = frames t @ new \<and> length new \<le> 1 \<and> True"
      for x' y' len' a' t
      using 2 by (simp add: drawBranch_return)
    from drawBranch_step [of 0 maxDepth color health metrics 1 "\<lambda>ns. True" x y len angle s,
        OF this]
    show ?thesis using 2 by auto
  next
    case 3
    define c where "c = callBound (nat (maxDepth - 1))"
    have c3: "3 * c + 1 = 4 ^ nat maxDepth"
      using callBound_eq [of "nat (maxDepth - 1)"] 3 by (simp add: c_def Suc_nat_eq_nat_zadd1)
    have lvl2: "\<exists>new. frames (drawBranch x' y' len' a' (1 + 1) maxDepth color health metrics t)
               = frames t @ new \<and> length new \<le> c \<and> True"
      for x' y' len' a' t
    proof -
      from drawBranch_calls [of maxDepth "1 + 1" "nat (maxDepth - 1)" x' y' len' a' color health
          metrics t]
      obtain rest where
        "frames (drawBranch x' y' len' a' (1 + 1) maxDepth color health metrics t)
            = frames t @ node x' y' len' a' (1 + 1) # rest" "Suc (length rest) \<le> c"
        by (auto simp: c_def)
      then show ?thesis
        by (intro exI [of _ "node x' y' len' a' (1 + 1) # rest"]) simp
    qed
    have lvl1: "\<exists>new. frames (drawBranch x' y' len' a' (0 + 1) maxDepth color health metrics t)
               = frames t @ new \<and> length new \<le> 1 + 2 * c \<and> True"
      for x' y' len' a' t
    proof -
      from drawBranch_step [of 1 maxDepth color health metrics c "\<lambda>ns. True" x' y' len' a' t,
          OF lvl2]
      obtain rest where
        "frames (drawBranch x' y' len' a' 1 maxDepth color health metrics t)
            = frames t @ node x' y' len' a' 1 # rest" "length rest \<le> 2 * c"
        by auto
      then show ?thesis
        by (intro exI [of _ "node x' y' len' a' 1 # rest"]) simp
    qed
    from drawBranch_step [of 0 maxDepth color health metrics "1 + 2 * c" "\<lambda>ns. True"
        x y len angle s, OF lvl1]
    obtain rest where
      r: "frames (drawBranch x y len angle 0 maxDepth color health metrics s)
            = frames s @ node x y len angle 0 # rest" "length rest \<le> 2 * (1 + 2 * c)"
      by auto
    have "(4::nat) ^ nat (maxDepth + 1) = 4 * 4 ^ nat maxDepth"
      using 3 by (simp add: nat_add_distrib)
    with c3 have "3 + 4 * c \<le> 4 ^ nat (maxDepth + 1)"
      by linarith
    with r show ?thesis
      by (intro exI [of _ rest]) simp
  qed
qed

text \<open>
  Claim C5.  \<open>drawBranch\<close> returns on every input: it is a total function, by the
  measure \<open>maxDepth + 1 - depth\<close>.  A call with \<open>depth > maxDepth\<close> or \<open>length < 2\<close>
  returns at once, with nothing drawn and no random number taken.  The calls that a
  call at depth \<open>d\<close> leads to are all deeper than \<open>d\<close> and at most at \<open>maxDepth + 1\<close>,
  and in the order of the calls no call is more than one deeper than the call before it,
  so that every call is one deeper than the call that makes it.  The calls number at most
  \<open>(4 ^ (maxDepth + 2 - d) - 1) / 3\<close>, and from the trunk, at depth 0, at most
  \<open>4 ^ (maxDepth + 1)\<close>, whatever the length, the angle and the state of the generator.
\<close>

theorem drawBranch_terminates:
  "(\<exists>rest. frames (drawBranch x y len angle depth maxDepth color health metrics s)
              = frames s @ node x y len angle depth # rest
          \<and> 3 * Suc (length rest) + 1 \<le> 4 ^ Suc (nat (maxDepth + 1 - depth))
          \<and> (\<forall>n \<in> set rest. depth < bn_depth n \<and> bn_depth n \<le> maxDepth + 1)
          \<and> deepensByOne (node x y len angle depth # rest)
          \<and> (depth = 0 \<longrightarrow> Suc (length rest) \<le> 4 ^ nat (maxDepth + 1)))
   \<and> (depth > maxDepth \<or> len < 2 \<longrightarrow>
         drawBranch x y len angle depth maxDepth color health metrics s
           = s\<lparr>frames := frames s @ [node x y len angle depth]\<rparr>)"
proof -
  from drawBranch_calls [OF refl, where x = x and y = y and len = len and angle = angle
      and depth = depth and maxDepth = maxDepth and color = color and health = health
      and metrics = metrics and s = s]
  obtain rest where
    r: "frames (drawBranch x y len angle depth maxDepth color health metrics s)
          = frames s @ node x y len angle depth # rest"
       "Suc (length rest) \<le> callBound (nat (maxDepth + 1 - depth))"
       "nested depth maxDepth rest"
    by blast
  from r(3) have q: "\<forall>n \<in> set rest. depth < bn_depth n \<and> bn_depth n \<le> maxDepth + 1"
    by (simp add: nested_def)
  from r(3) have o: "deepensByOne (node x y len angle depth # rest)"
    by (rule nested_top)
  from r(2) have "3 * Suc (length rest) + 1 \<le> 3 * callBound (nat (maxDepth + 1 - depth)) + 1"
    by simp
  then have b: "3 * Suc (length rest) + 1 \<le> 4 ^ Suc (nat (maxDepth + 1 - depth))"
    by (simp only: callBound_eq)
  have t: "Suc (length rest) \<le> 4 ^ nat (maxDepth + 1)" if "depth = 0"
  proof -
    from drawBranch_calls_trunk [of x y len angle maxDepth color health metrics s]
    obtain rest' where
      "frames (drawBranch x y len angle 0 maxDepth color health metrics s)
          = frames s @ node x y len angle 0 # rest'"
      "Suc (length rest') \<le> 4 ^ nat (maxDepth + 1)"
      by blast
    with r(1) that show ?thesis by simp
  qed
  have ret: "depth > maxDepth \<or> len < 2 \<longrightarrow>
         drawBranch x y len angle depth maxDepth color health metrics s
           = s\<lparr>frames := frames s @ [node x y len angle depth]\<rparr>"
    by (rule impI) (rule drawBranch_return)
  from r(1) q o b t ret show ?thesis by blast
qed

theorem drawBranch_terminates_witness:
  "(4 :: int) < 5
   \<and> drawBranch 790 640 100 0 5 4 ''#00ff00'' 1 exampleMetrics (freshScene 1400 (Some []) (\<lambda>n. 1 / 2) 0)
       = (freshScene 1400 (Some []) (\<lambda>n. 1 / 2) 0)\<lparr>frames := [node 790 640 100 0 5]\<rparr>
   \<and> (\<exists>rest. frames (drawBranch 790 640 100 0 0 4 ''#00ff00'' 1 exampleMetrics
                        (freshScene 1400 (Some []) (\<lambda>n. 1 / 2) 0))
                = node 790 640 100 0 0 # rest
           \<and> Suc (length rest) \<le> 1024
           \<and> (\<forall>n \<in> set rest. 0 < bn_depth n \<and> bn_depth n \<le> 5)
           \<and> deepensByOne (node 790 640 100 0 0 # rest))"
proof -
  let ?s = "freshScene 1400 (Some []) (\<lambda>n. 1 / 2) 0"
  have k: "(4 :: nat) ^ nat (4 + 1) = 1024" by simp
  have f: "frames ?s = []" by (simp add: freshScene_def)
  from drawBranch_terminates [of 790 640 100 0 5 4 "''#00ff00''" 1 exampleMetrics ?s]
  have a: "drawBranch 790 640 100 0 5 4 ''#00ff00'' 1 exampleMetrics ?s
           = ?s\<lparr>frames := [node 790 640 100 0 5]\<rparr>"
    by (simp add: f)
  from drawBranch_terminates [of 790 640 100 0 0 4 "''#00ff00''" 1 exampleMetrics ?s]
  obtain rest where
    "frames (drawBranch 790 640 100 0 0 4 ''#00ff00'' 1 exampleMetrics ?s)
       = frames ?s @ node 790 640 100 0 0 # rest"
    "\<forall>n \<in> set rest. (0::int) < bn_depth n \<and> bn_depth n \<le> 4 + 1"
    "Suc (length rest) \<le> 4 ^ nat (4 + 1)"
    "deepensByOne (node 790 640 100 0 0 # rest)"
    by blast
  then have b: "\<exists>rest. frames (drawBranch 790 640 100 0 0 4 ''#00ff00'' 1 exampleMetrics ?s)
                = node 790 640 100 0 0 # rest
           \<and> Suc (length rest) \<le> 1024
           \<and> (\<forall>n \<in> set rest. 0 < bn_depth n \<and> bn_depth n \<le> 5)
           \<and> deepensByOne (node 790 640 100 0 0 # rest)"
    unfolding k f by (intro exI [of _ rest]) simp
  from a b show ?thesis by simp
qed

subsection \<open>The geometry depends on the seed and the parameters only\<close>

lemma sameGeometry_refl [simp]: "sameGeometry s s"
  by (simp add: sameGeometry_def)

lemma random_next_geo:
  assumes "sameGeometry s t"
  shows "fst (random_next s) = fst (random_next t)"
    and "sameGeometry (snd (random_next s)) (snd (random_next t))"
  using assms by (simp_all add: sameGeometry_def random_next_def split_def Let_def)

lemma ctx_geo: "sameGeometry s t \<Longrightarrow> sameGeometry (ctx ops s) (ctx ops t)"
  by (simp add: sameGeometry_def ctx_def)

lemma pushParticle_geo:
  "sameGeometry s t \<Longrightarrow> sameGeometry (pushParticle x y c s) (pushParticle x y c t)"
  by (simp add: sameGeometry_def pushParticle_def split: option.split)

lemma fold_geo:
  assumes "\<And>x a b. sameGeometry a b \<Longrightarrow> sameGeometry (f x a) (g x b)"
    and "sameGeometry s t"
  shows "sameGeometry (fold f xs s) (fold g xs t)"
  using assms(2) by (induction xs arbitrary: s t) (simp_all add: assms(1))

lemma drawSegment_geo:
  assumes "sameGeometry s t"
  shows "fst (drawSegment x y len angle depth maxDepth color health metrics s)
           = fst (drawSegment x y len angle depth maxDepth color health metrics t)"
    and "sameGeometry (snd (drawSegment x y len angle depth maxDepth color health metrics s))
           (snd (drawSegment x y len angle depth maxDepth color health metrics t))"
proof -
  from assms have g: "sameGeometry (ctx [Save] s) (ctx [Save] t)" by (rule ctx_geo)
  note r = random_next_geo [OF g]
  show "fst (drawSegment x y len angle depth maxDepth color health metrics s)
           = fst (drawSegment x y len angle depth maxDepth color health metrics t)"
    by (simp add: drawSegment_def Let_def split_def r(1))
  show "sameGeometry (snd (drawSegment x y len angle depth maxDepth color health metrics s))
           (snd (drawSegment x y len angle depth maxDepth color health metrics t))"
    by (simp add: drawSegment_def Let_def split_def r(1) ctx_geo r(2))
qed


lemma drawLeaf_geo:
  assumes "sameGeometry s t"
  shows "sameGeometry (drawLeaf ex ey w opacity color health glow l s)
           (drawLeaf ex ey w opacity color health glow l t)"
proof -
  note r1 = random_next_geo [OF assms]
  note r2 = random_next_geo [OF r1(2)]
  note r3 = random_next_geo [OF r2(2)]
  note r4 = random_next_geo [OF r3(2)]
  show ?thesis
    by (simp add: drawLeaf_def Let_def split_def r1(1) r2(1) r3(1) r4(1)
        ctx_geo r2(2) r4(2))
qed

lemma drawLeaves_geo:
  assumes "sameGeometry s t"
  shows "sameGeometry (drawLeaves ex ey w opacity depth maxDepth color health metrics s)
           (drawLeaves ex ey w opacity depth maxDepth color health metrics t)"
proof -
  define glow where "glow = dflt 1 (glowIntensity metrics)"
  define particleChance where "particleChance = 0.95 - health * 0.1"
  define leaves where "leaves = (\<lambda>n u.
      let s3 = fold (drawLeaf ex ey w opacity color health glow) [0..<n] u;
          (r3, s4) = random_next s3
      in if r3 > particleChance then pushParticle ex ey color s4 else s4)"
  have lv: "sameGeometry (leaves n a) (leaves n b)" if "sameGeometry a b" for a b n
  proof -
    have "sameGeometry (fold (drawLeaf ex ey w opacity color health glow) [0..<n] a)
            (fold (drawLeaf ex ey w opacity color health glow) [0..<n] b)"
      using that by (intro fold_geo drawLeaf_geo)
    from random_next_geo [OF this] show ?thesis
      by (simp add: leaves_def Let_def split_def pushParticle_geo)
  qed
  note r1 = random_next_geo [OF assms]
  note r2 = random_next_geo [OF r1(2)]
  have eq: "drawLeaves ex ey w opacity depth maxDepth color health metrics u =
      ctx [Restore]
        (if depth \<ge> maxDepth - 2
            \<and> fst (random_next u) > 1 - max 0.1 ((0.3 - (1 - health) * 0.2
                   - (1 - dflt 0.5 (commitDensity metrics)) * 0.1) * 2)
         then (if health > 0.6 \<and> dflt 0.5 (commitDensity metrics) > 0.5
               then leaves (if fst (random_next (snd (random_next u))) > 0.5 then 2 else 1)
                      (snd (random_next (snd (random_next u))))
               else leaves 1 (snd (random_next u)))
         else snd (random_next u))" for u
    by (simp add: drawLeaves_def leaves_def glow_def particleChance_def Let_def split_def)
  show ?thesis
    unfolding eq [of s] eq [of t] r1(1) r2(1)
    by (intro ctx_geo) (simp add: lv r1(2) r2(2))
qed

lemma chooseBranchCount_geo:
  assumes "sameGeometry s t"
  shows "fst (chooseBranchCount depth metrics s) = fst (chooseBranchCount depth metrics t)"
    and "sameGeometry (snd (chooseBranchCount depth metrics s))
           (snd (chooseBranchCount depth metrics t))"
  using assms random_next_geo [OF assms]
  by (simp_all add: chooseBranchCount_def Let_def split_def)

lemma childBranch_geo:
  assumes "sameGeometry s t"
  shows "fst (childBranch len a health metrics s) = fst (childBranch len a health metrics t)"
    and "sameGeometry (snd (childBranch len a health metrics s))
           (snd (childBranch len a health metrics t))"
proof -
  note r1 = random_next_geo [OF assms]
  note r2 = random_next_geo [OF r1(2)]
  show "fst (childBranch len a health metrics s) = fst (childBranch len a health metrics t)"
    by (simp add: childBranch_def Let_def split_def r1(1) r2(1))
  show "sameGeometry (snd (childBranch len a health metrics s))
           (snd (childBranch len a health metrics t))"
    by (simp add: childBranch_def Let_def split_def r2(2))
qed

lemma drawBranch_geo:
  assumes "nat (maxDepth + 1 - depth) = k" and "sameGeometry s t"
  shows "sameGeometry (drawBranch x y len angle depth maxDepth color health metrics s)
           (drawBranch x y len angle depth maxDepth color health metrics t)"
  using assms
proof (induction k arbitrary: x y len angle depth s t)
  case 0
  then have "depth > maxDepth" by simp
  with 0(2) show ?case
    by (simp add: drawBranch_return sameGeometry_def)
next
  case (Suc k)
  then have k: "nat (maxDepth + 1 - (depth + 1)) = k" by simp
  show ?case
  proof (cases "depth > maxDepth \<or> len < 2")
    case True
    with Suc.prems(2) show ?thesis
      by (simp add: drawBranch_return sameGeometry_def)
  next
    case False
    define seg where "seg = (\<lambda>u. drawSegment x y len angle depth maxDepth color health metrics
        (u\<lparr>frames := frames u @
           [\<lparr>bn_x = x, bn_y = y, bn_length = len, bn_angle = angle, bn_depth = depth\<rparr>]\<rparr>))"
    define L where "L = (\<lambda>e :: real \<times> real \<times> real \<times> real \<times> real.
        drawLeaves (fst e) (fst (snd e)) (fst (snd (snd (snd e)))) (snd (snd (snd (snd e))))
          depth maxDepth color health metrics)"
    define F where "F = (\<lambda>(e :: real \<times> real \<times> real \<times> real \<times> real) (i::nat) a.
        drawBranch (fst e) (fst (snd e))
          (fst (fst (childBranch len (fst (snd (snd e))) health metrics a)))
          (snd (fst (childBranch len (fst (snd (snd e))) health metrics a)))
          (depth + 1) maxDepth color health metrics
          (snd (childBranch len (fst (snd (snd e))) health metrics a)))"
    have unf: "drawBranch x y len angle depth maxDepth color health metrics u
                = fold (F (fst (seg u)))
                    [0..<fst (chooseBranchCount depth metrics (L (fst (seg u)) (snd (seg u))))]
                    (snd (chooseBranchCount depth metrics (L (fst (seg u)) (snd (seg u)))))"
      for u
      using False
      by (subst drawBranch.simps) (simp add: Let_def split_def seg_def L_def F_def)
    have g0: "sameGeometry
        (s\<lparr>frames := frames s @
           [\<lparr>bn_x = x, bn_y = y, bn_length = len, bn_angle = angle, bn_depth = depth\<rparr>]\<rparr>)
        (t\<lparr>frames := frames t @
           [\<lparr>bn_x = x, bn_y = y, bn_length = len, bn_angle = angle, bn_depth = depth\<rparr>]\<rparr>)"
      using Suc.prems(2) by (simp add: sameGeometry_def)
    have v: "fst (seg t) = fst (seg s)" and g1: "sameGeometry (snd (seg s)) (snd (seg t))"
      using drawSegment_geo [OF g0, of x y len angle depth maxDepth color health metrics]
      by (simp_all add: seg_def)
    have g2: "sameGeometry (L (fst (seg s)) (snd (seg s))) (L (fst (seg s)) (snd (seg t)))"
      unfolding L_def using g1 by (rule drawLeaves_geo)
    note c = chooseBranchCount_geo [OF g2, of depth metrics]
    have step: "sameGeometry (F e i a) (F e i b)" if "sameGeometry a b" for e i a b
      unfolding F_def childBranch_geo(1) [OF that]
      by (rule Suc.IH [OF k childBranch_geo(2) [OF that]])
    show ?thesis
      unfolding unf [of s] unf [of t] v c(1)
      by (rule fold_geo [OF step c(2)])
  qed
qed


text \<open>
  Claim C1.  Two renders by \<open>drawBranch\<close> with the same arguments, each on a fresh
  \<open>SeededRandom\<close> seeded with the sum of the character codes of the full name, enter
  the same frames in the same order (the start point, the length, the angle and the
  depth of every branch), issue the same calls with the same coordinates on the drawing
  context, and leave the seeded generator in the same state, whatever \<open>Math.random\<close>
  returns in either render and whatever particle array either is given: the geometry is a
  function of the seed and the render parameters alone.
\<close>

theorem drawBranch_deterministic:
  "frames (drawBranch x y len angle depth maxDepth color health metrics
             (freshScene (seedOf name) ps rnd n))
     = frames (drawBranch x y len angle depth maxDepth color health metrics
                 (freshScene (seedOf name) ps' rnd' n'))
   \<and> canvas (drawBranch x y len angle depth maxDepth color health metrics
               (freshScene (seedOf name) ps rnd n))
     = canvas (drawBranch x y len angle depth maxDepth color health metrics
                 (freshScene (seedOf name) ps' rnd' n'))
   \<and> rng (drawBranch x y len angle depth maxDepth color health metrics
            (freshScene (seedOf name) ps rnd n))
     = rng (drawBranch x y len angle depth maxDepth color health metrics
              (freshScene (seedOf name) ps' rnd' n'))"
proof -
  have "sameGeometry (freshScene (seedOf name) ps rnd n)
          (freshScene (seedOf name) ps' rnd' n')"
    by (simp add: sameGeometry_def freshScene_def)
  from drawBranch_geo [OF refl this]
  show ?thesis by (simp add: sameGeometry_def)
qed

theorem drawBranch_deterministic_witness:
  "seedOf ''facebook/react'' = 1400
   \<and> canvas (drawBranch 790 640 100 (- (pi / 2)) 0 4 ''#00ff00'' 1 exampleMetrics
               (freshScene (seedOf ''facebook/react'') (Some []) (\<lambda>n. 1 / 2) 0))
     = canvas (drawBranch 790 640 100 (- (pi / 2)) 0 4 ''#00ff00'' 1 exampleMetrics
                 (freshScene (seedOf ''facebook/react'') None (\<lambda>n. 0) 7))"
  using drawBranch_deterministic [of 790 640 100 "- (pi / 2)" 0 4 "''#00ff00''" 1 exampleMetrics
      "''facebook/react''" "Some []" "\<lambda>n. 1 / 2" 0 None "\<lambda>n. 0" 7]
  by (simp add: seedOf_def)

subsection \<open>The colour conversions are inverse\<close>

lemma hexToHsl_arith:
  "hexToHsl hex =
     (case channels hex of None \<Rightarrow> None
      | Some (rr, gg, bb) \<Rightarrow> Some (hslOfRgb (real rr / 255) (real gg / 255) (real bb / 255)))"
  by (simp add: hexToHsl_def hslOfRgb_def Let_def split_def split: option.split)

lemma hslToHex_arith:
  "hslToHex h s l =
     (case rgbOfHsl h s l of (r, g, b) \<Rightarrow> CHR ''#'' # toHex r @ toHex g @ toHex b)"
  by (simp add: hslToHex_def rgbOfHsl_def toHex_def Let_def split_def)

lemma js_fmod_2:
  assumes "0 \<le> a"
  shows "a < 2 \<Longrightarrow> js_fmod a 2 = a"
    and "2 \<le> a \<Longrightarrow> a < 4 \<Longrightarrow> js_fmod a 2 = a - 2"
    and "4 \<le> a \<Longrightarrow> a < 6 \<Longrightarrow> js_fmod a 2 = a - 4"
proof -
  have f0: "\<lfloor>a / 2\<rfloor> = 0" if "a < 2" using that assms by (intro floor_unique) simp_all
  have f1: "\<lfloor>a / 2\<rfloor> = 1" if "2 \<le> a" "a < 4" using that by (intro floor_unique) simp_all
  have f2: "\<lfloor>a / 2\<rfloor> = 2" if "4 \<le> a" "a < 6" using that by (intro floor_unique) simp_all
  show "a < 2 \<Longrightarrow> js_fmod a 2 = a"
    using assms f0 by (simp add: js_fmod_def sgn_if)
  show "2 \<le> a \<Longrightarrow> a < 4 \<Longrightarrow> js_fmod a 2 = a - 2"
    using f1 by (simp add: js_fmod_def sgn_if)
  show "4 \<le> a \<Longrightarrow> a < 6 \<Longrightarrow> js_fmod a 2 = a - 4"
    using f2 by (simp add: js_fmod_def sgn_if)
qed

lemma rgbOfHsl_sector:
  assumes c: "(1 - \<bar>2 * (l0 / 100) - 1\<bar>) * (s0 / 100) = c"
    and m: "l0 / 100 - c / 2 = m"
    and h: "h = 60 * hp" and hp: "0 \<le> hp" "hp < 6"
  shows "rgbOfHsl h s0 l0 =
     (if hp < 1 then (c + m, c * hp + m, m)
      else if hp < 2 then (c * (2 - hp) + m, c + m, m)
      else if hp < 3 then (m, c + m, c * (hp - 2) + m)
      else if hp < 4 then (m, c * (4 - hp) + m, c + m)
      else if hp < 5 then (c * (hp - 4) + m, m, c + m)
      else (c + m, m, c * (6 - hp) + m))"
proof -
  have q: "h / 60 = hp" using h by simp
  have s: "(h < 60) = (hp < 1)" "(h < 120) = (hp < 2)" "(h < 180) = (hp < 3)"
    "(h < 240) = (hp < 4)" "(h < 300) = (hp < 5)"
    using h by simp_all
  have e: "rgbOfHsl h s0 l0 =
      (case (if hp < 1 then (c, c * (1 - \<bar>js_fmod hp 2 - 1\<bar>), 0)
             else if hp < 2 then (c * (1 - \<bar>js_fmod hp 2 - 1\<bar>), c, 0)
             else if hp < 3 then (0, c, c * (1 - \<bar>js_fmod hp 2 - 1\<bar>))
             else if hp < 4 then (0, c * (1 - \<bar>js_fmod hp 2 - 1\<bar>), c)
             else if hp < 5 then (c * (1 - \<bar>js_fmod hp 2 - 1\<bar>), 0, c)
             else (c, 0, c * (1 - \<bar>js_fmod hp 2 - 1\<bar>)))
       of (r, g, b) \<Rightarrow> (r + m, g + m, b + m))"
    unfolding rgbOfHsl_def Let_def c m q s ..
  consider "hp < 1" | "1 \<le> hp" "hp < 2" | "2 \<le> hp" "hp < 3" | "3 \<le> hp" "hp < 4"
    | "4 \<le> hp" "hp < 5" | "5 \<le> hp"
    by linarith
  then show ?thesis
  proof cases
    case 1
    with hp js_fmod_2(1) [of hp] have fm: "js_fmod hp 2 = hp" by simp
    from 1 show ?thesis
      unfolding e fm by (simp add: algebra_simps)
  next
    case 2
    with hp js_fmod_2(1) [of hp] have fm: "js_fmod hp 2 = hp" by simp
    from 2 show ?thesis
      unfolding e fm by (simp add: algebra_simps)
  next
    case 3
    with hp js_fmod_2(2) [of hp] have fm: "js_fmod hp 2 = hp - 2" by simp
    from 3 show ?thesis
      unfolding e fm by (simp add: algebra_simps)
  next
    case 4
    with hp js_fmod_2(2) [of hp] have fm: "js_fmod hp 2 = hp - 2" by simp
    from 4 show ?thesis
      unfolding e fm by (simp add: algebra_simps)
  next
    case 5
    with hp js_fmod_2(3) [of hp] have fm: "js_fmod hp 2 = hp - 4" by simp
    from 5 show ?thesis
      unfolding e fm by (simp add: algebra_simps)
  next
    case 6
    with hp js_fmod_2(3) [of hp] have fm: "js_fmod hp 2 = hp - 4" by simp
    from 6 show ?thesis
      unfolding e fm by (simp add: algebra_simps)
  qed
qed


text \<open>Chroma and the lightness offset come back as the spread and the minimum.\<close>

lemma mult_div_same: "k \<noteq> 0 \<Longrightarrow> k * (n / k) = n" for k n :: real
  by simp

lemma chroma_back:
  fixes mx mn :: real
  assumes "mn < mx" "0 \<le> mn" "mx \<le> 1"
  shows "(1 - \<bar>mx + mn - 1\<bar>)
           * (if 1 < mx + mn then (mx - mn) / (2 - mx - mn) else (mx - mn) / (mx + mn))
         = mx - mn"
proof (cases "1 < mx + mn")
  case True
  then have e: "1 - \<bar>mx + mn - 1\<bar> = 2 - mx - mn" by simp
  from assms have nz: "2 - mx - mn \<noteq> 0" by simp
  show ?thesis
    unfolding e by (simp only: True if_True mult_div_same [OF nz])
next
  case False
  then have e: "1 - \<bar>mx + mn - 1\<bar> = mx + mn" by simp
  from assms have nz: "mx + mn \<noteq> 0" by simp
  show ?thesis
    unfolding e by (simp only: False if_False mult_div_same [OF nz])
qed

lemma rgbOfHsl_hslOfRgb:
  fixes r g b :: real
  assumes "0 \<le> r" "r \<le> 1" "0 \<le> g" "g \<le> 1" "0 \<le> b" "b \<le> 1"
  shows "(case hslOfRgb r g b of (h, s, l) \<Rightarrow> rgbOfHsl h s l) = (r, g, b)"
proof -
  define mx where "mx = max (max r g) b"
  define mn where "mn = min (min r g) b"
  define l where "l = (mx + mn) / 2"
  have bounds: "0 \<le> mn" "mx \<le> 1" "mn \<le> mx"
    using assms by (simp_all add: mx_def mn_def)
  show ?thesis
  proof (cases "mx = mn")
    case True
    then have eq: "r = l" "g = l" "b = l"
      by (simp_all add: mx_def mn_def l_def max_def min_def split: if_splits)
    have "hslOfRgb r g b = (60 * 0, 0, l * 100)"
      unfolding hslOfRgb_def Let_def
      unfolding mx_def [symmetric] mn_def [symmetric]
      unfolding l_def [symmetric]
      using True by simp
    moreover have "rgbOfHsl (60 * 0) 0 (l * 100) = (0 + l, 0 * 0 + l, l)"
      using rgbOfHsl_sector [of "l * 100" 0 0 l "60 * 0" 0] by simp
    ultimately show ?thesis using eq by simp
  next
    case False
    with bounds have lt: "mn < mx" by simp
    define d where "d = mx - mn"
    have dpos: "0 < d" using lt by (simp add: d_def)
    define s where "s = (if l > 0.5 then d / (2 - mx - mn) else d / (mx + mn))"
    define hp where "hp = (if mx = r then (g - b) / d + (if g < b then 6 else 0)
                           else if mx = g then (b - r) / d + 2
                           else (r - g) / d + 4)"
    have H: "hslOfRgb r g b = (60 * hp, s * 100, l * 100)"
      unfolding hslOfRgb_def Let_def
      unfolding mx_def [symmetric] mn_def [symmetric]
      unfolding l_def [symmetric] d_def [symmetric]
      unfolding s_def [symmetric]
      using False by (simp add: hp_def)
    have "(l > 0.5) = (1 < mx + mn)" by (simp add: l_def)
    then have s': "s = (if 1 < mx + mn then d / (2 - mx - mn) else d / (mx + mn))"
      by (simp add: s_def)
    have l1: "l * 100 / 100 = l" and s1: "s * 100 / 100 = s" and l2: "2 * l = mx + mn"
      by (simp_all add: l_def)
    have C: "(1 - \<bar>2 * (l * 100 / 100) - 1\<bar>) * (s * 100 / 100) = d"
    proof -
      have "(1 - \<bar>2 * l - 1\<bar>) * s = d"
        unfolding l2 s' d_def by (rule chroma_back [OF lt bounds(1,2)])
      then show ?thesis by (simp only: l1 s1)
    qed
    have M: "l * 100 / 100 - d / 2 = mn"
      by (simp add: l_def d_def field_simps)
    have q: "d * (n / d) = n" for n using dpos by simp
    have in1: "0 \<le> n / d" if "0 \<le> n" for n using that dpos by simp
    have le1: "n / d \<le> 1" if "n \<le> d" for n using that dpos by simp
    have lt1: "n / d < 1" if "n < d" for n using that dpos by simp
    have ge1: "- 1 \<le> n / d" if "- d \<le> n" for n using that dpos by (simp add: pos_le_divide_eq)
    have gt1: "- 1 < n / d" if "- d < n" for n using that dpos by (simp add: pos_less_divide_eq)
    have neg: "n / d < 0" if "n < 0" for n using that dpos by (simp add: divide_neg_pos)
    have one: "n = d" if "1 \<le> n / d" "n \<le> d" for n
      using that dpos by (simp add: pos_le_divide_eq)
    have dm: "d + mn = mx" by (simp add: d_def)
    have R: "rgbOfHsl (60 * hp) (s * 100) (l * 100) =
       (if hp < 1 then (d + mn, d * hp + mn, mn)
        else if hp < 2 then (d * (2 - hp) + mn, d + mn, mn)
        else if hp < 3 then (mn, d + mn, d * (hp - 2) + mn)
        else if hp < 4 then (mn, d * (4 - hp) + mn, d + mn)
        else if hp < 5 then (d * (hp - 4) + mn, mn, d + mn)
        else (d + mn, mn, d * (6 - hp) + mn))" if "0 \<le> hp" "hp < 6"
      using that by (rule rgbOfHsl_sector [OF C M refl])
    consider (A) "mx = r" "b \<le> g" | (B) "mx = r" "g < b" | (C1) "mx \<noteq> r" "mx = g" "b < r"
      | (C2) "mx \<noteq> r" "mx = g" "r \<le> b" | (D1) "mx \<noteq> r" "mx \<noteq> g" "r < g"
      | (D2) "mx \<noteq> r" "mx \<noteq> g" "g \<le> r"
      by linarith
    then have "rgbOfHsl (60 * hp) (s * 100) (l * 100) = (r, g, b)"
    proof cases
      case A
      then have mnb: "mn = b" and gr: "g \<le> r"
        by (simp_all add: mx_def mn_def max_def min_def split: if_splits)
      have h: "hp = (g - b) / d" using A by (simp add: hp_def)
      have d: "d = r - b" using A mnb by (simp add: d_def)
      have "0 \<le> (g - b) / d" using A by (intro in1) simp
      moreover have "(g - b) / d \<le> 1" using gr by (intro le1) (simp add: d)
      ultimately have r0: "0 \<le> hp" "hp \<le> 1" by (simp_all add: h)
      have p: "d * hp = g - b" unfolding h by (rule q)
      have e1: "d + b = r" using dm A mnb by simp
      have e2: "d * hp + b = g" using p by simp
      show ?thesis
      proof (cases "hp < 1")
        case True
        with R r0 show ?thesis by (simp add: e1 e2 mnb)
      next
        case False
        with r0 have h1: "hp = 1" by simp
        with p d have "g = r" by simp
        with R r0 h1 e1 mnb show ?thesis by simp
      qed
    next
      case B
      then have mng: "mn = g" and br: "b \<le> r"
        by (simp_all add: mx_def mn_def max_def min_def split: if_splits)
      have h: "hp = (g - b) / d + 6" using B by (simp add: hp_def)
      have d: "d = r - g" using B mng by (simp add: d_def)
      have "- 1 \<le> (g - b) / d" using br by (intro ge1) (simp add: d)
      moreover have "(g - b) / d < 0" using B by (intro neg) simp
      ultimately have r0: "5 \<le> hp" "hp < 6" by (simp_all add: h)
      have "6 - hp = (b - g) / d" by (simp add: h diff_divide_distrib)
      then have p: "d * (6 - hp) = b - g" by (simp only: q)
      have e1: "d + g = r" using dm B mng by simp
      have e2: "d * (6 - hp) + g = b" using p by simp
      from R r0 show ?thesis by (simp add: e1 e2 mng)
    next
      case C1
      then have mnb: "mn = b" and rg: "r < g"
        by (simp_all add: mx_def mn_def max_def min_def split: if_splits)
      have h: "hp = (b - r) / d + 2" using C1 by (simp add: hp_def)
      have d: "d = g - b" using C1 mnb by (simp add: d_def)
      have "- 1 < (b - r) / d" using rg by (intro gt1) (simp add: d)
      moreover have "(b - r) / d < 0" using C1 by (intro neg) simp
      ultimately have r0: "1 < hp" "hp < 2" by (simp_all add: h)
      have "2 - hp = (r - b) / d" by (simp add: h diff_divide_distrib)
      then have p: "d * (2 - hp) = r - b" by (simp only: q)
      have e1: "d + b = g" using dm C1 mnb by simp
      have e2: "d * (2 - hp) + b = r" using p by simp
      from R r0 show ?thesis by (simp add: e1 e2 mnb)
    next
      case C2
      then have mnr: "mn = r" and bg: "b \<le> g"
        by (simp_all add: mx_def mn_def max_def min_def split: if_splits)
      have h: "hp = (b - r) / d + 2" using C2 by (simp add: hp_def)
      have d: "d = g - r" using C2 mnr by (simp add: d_def)
      have "0 \<le> (b - r) / d" using C2 by (intro in1) simp
      moreover have "(b - r) / d \<le> 1" using bg by (intro le1) (simp add: d)
      ultimately have r0: "2 \<le> hp" "hp \<le> 3" by (simp_all add: h)
      have "hp - 2 = (b - r) / d" by (simp add: h)
      then have p: "d * (hp - 2) = b - r" by (simp only: q)
      have e1: "d + r = g" using dm C2 mnr by simp
      have e2: "d * (hp - 2) + r = b" using p by simp
      show ?thesis
      proof (cases "hp < 3")
        case True
        with R r0 show ?thesis by (simp add: e1 e2 mnr)
      next
        case False
        with r0 have h3: "hp = 3" by simp
        with p d have "b = g" by simp
        with R r0 h3 e1 mnr show ?thesis by simp
      qed
    next
      case D1
      then have mnr: "mn = r" and mxb: "mx = b" and gb: "g < b"
        by (simp_all add: mx_def mn_def max_def min_def split: if_splits)
      have h: "hp = (r - g) / d + 4" using D1 by (simp add: hp_def)
      have d: "d = b - r" using mxb mnr by (simp add: d_def)
      have "- 1 < (r - g) / d" using gb by (intro gt1) (simp add: d)
      moreover have "(r - g) / d < 0" using D1 by (intro neg) simp
      ultimately have r0: "3 < hp" "hp < 4" by (simp_all add: h)
      have "4 - hp = (g - r) / d" by (simp add: h diff_divide_distrib)
      then have p: "d * (4 - hp) = g - r" by (simp only: q)
      have e1: "d + r = b" using dm mxb mnr by simp
      have e2: "d * (4 - hp) + r = g" using p by simp
      from R r0 show ?thesis by (simp add: e1 e2 mnr)
    next
      case D2
      then have mng: "mn = g" and mxb: "mx = b" and rb: "r < b"
        by (simp_all add: mx_def mn_def max_def min_def split: if_splits)
      have h: "hp = (r - g) / d + 4" using D2 by (simp add: hp_def)
      have d: "d = b - g" using mxb mng by (simp add: d_def)
      have "0 \<le> (r - g) / d" using D2 by (intro in1) simp
      moreover have "(r - g) / d < 1" using rb by (intro lt1) (simp add: d)
      ultimately have r0: "4 \<le> hp" "hp < 5" by (simp_all add: h)
      have "hp - 4 = (r - g) / d" by (simp add: h)
      then have p: "d * (hp - 4) = r - g" by (simp only: q)
      have e1: "d + g = b" using dm mxb mng by simp
      have e2: "d * (hp - 4) + g = r" using p by simp
      from R r0 show ?thesis by (simp add: e1 e2 mng)
    qed
    with H show ?thesis by simp
  qed
qed


lemma below_16:
  assumes "k < (16 :: nat)"
  shows "k \<in> {0, 1, 2, 3, 4, 5, 6, 7, 8, 9, 10, 11, 12, 13, 14, 15}"
  using assms by simp presburger

lemma hexDigit_hexChar: "k < 16 \<Longrightarrow> hexDigit (hexChar k) = Some k"
  using below_16 [of k] by (auto simp: hexDigit_def hexChar_def)

lemma hexDigit_less: "hexDigit c = Some k \<Longrightarrow> k < 16"
  by (auto simp: hexDigit_def Let_def split: if_splits)

lemma natToString16_byte:
  assumes "n < 256"
  shows "padStart 2 CHR ''0'' (natToString16 n) = [hexChar (n div 16), hexChar (n mod 16)]"
proof (cases "n < 16")
  case True
  then show ?thesis
    by (subst natToString16.simps) (simp add: padStart_def hexChar_def)
next
  case False
  with assms have "n div 16 < 16" by simp
  with False show ?thesis
    by (subst natToString16.simps, subst natToString16.simps) (simp add: padStart_def)
qed

lemma toHex_byte:
  assumes "n < 256"
  shows "toHex (real n / 255) = [hexChar (n div 16), hexChar (n mod 16)]"
proof -
  have "Math_round (real n / 255 * 255) = int n"
    by (simp add: Math_round_def)
  then show ?thesis
    using natToString16_byte [OF assms] by (simp add: toHex_def toString16_def)
qed

lemma parseInt16_byte:
  assumes "n < 256"
  shows "parseInt16 [hexChar (n div 16), hexChar (n mod 16)] = Some n"
proof -
  from assms have "n div 16 < 16" by simp
  then have "hexDigit (hexChar (n div 16)) = Some (n div 16)"
    by (rule hexDigit_hexChar)
  moreover have "hexDigit (hexChar (n mod 16)) = Some (n mod 16)"
    by (rule hexDigit_hexChar) simp
  ultimately show ?thesis by (simp add: parseInt16_def)
qed

lemma channels_printed:
  assumes "r < 256" "g < 256" "b < 256"
  shows "channels (CHR ''#'' # toHex (real r / 255) @ toHex (real g / 255) @ toHex (real b / 255))
           = Some (r, g, b)"
  using assms
  by (simp add: toHex_byte channels_def slice_def parseInt16_byte del: upt.simps)

lemma validHex_channels:
  assumes "validHex hex"
  shows "\<exists>r g b. channels hex = Some (r, g, b) \<and> r < 256 \<and> g < 256 \<and> b < 256"
proof -
  from assms obtain c ds where hex: "hex = c # ds" and len: "length ds = 6"
    and all: "list_all (\<lambda>c. hexDigit c \<noteq> None) ds"
    by (cases hex) (auto simp: validHex_def)
  from len obtain a1 a2 a3 a4 a5 a6 where ds: "ds = [a1, a2, a3, a4, a5, a6]"
    by (auto simp: length_Suc_conv numeral_eq_Suc)
  from all ds obtain d1 d2 d3 d4 d5 d6 where
    d: "hexDigit a1 = Some d1" "hexDigit a2 = Some d2" "hexDigit a3 = Some d3"
       "hexDigit a4 = Some d4" "hexDigit a5 = Some d5" "hexDigit a6 = Some d6"
    by auto
  from d have "d1 < 16" "d2 < 16" "d3 < 16" "d4 < 16" "d5 < 16" "d6 < 16"
    by (auto dest: hexDigit_less)
  then have "16 * d1 + d2 < 256" "16 * d3 + d4 < 256" "16 * d5 + d6 < 256"
    by simp_all
  moreover have "channels hex = Some (16 * d1 + d2, 16 * d3 + d4, 16 * d5 + d6)"
    by (simp add: hex ds channels_def slice_def parseInt16_def d)
  ultimately show ?thesis by blast
qed

lemma roundtrip_exact:
  assumes "validHex hex"
  shows "\<exists>h s l r g b. hexToHsl hex = Some (h, s, l) \<and> channels hex = Some (r, g, b)
           \<and> channels (hslToHex h s l) = Some (r, g, b)"
proof -
  from validHex_channels [OF assms] obtain r g b where
    ch: "channels hex = Some (r, g, b)" and lt: "r < 256" "g < 256" "b < 256"
    by blast
  obtain h s l where hsl: "hslOfRgb (real r / 255) (real g / 255) (real b / 255) = (h, s, l)"
    by (cases "hslOfRgb (real r / 255) (real g / 255) (real b / 255)") auto
  from lt have "rgbOfHsl h s l = (real r / 255, real g / 255, real b / 255)"
    using rgbOfHsl_hslOfRgb [of "real r / 255" "real g / 255" "real b / 255"]
    by (simp add: hsl)
  then have "channels (hslToHex h s l) = Some (r, g, b)"
    using channels_printed [OF lt] by (simp add: hslToHex_arith)
  moreover have "hexToHsl hex = Some (h, s, l)"
    by (simp add: hexToHsl_arith ch hsl)
  ultimately show ?thesis using ch by blast
qed


text \<open>
  Claim C6.  For a valid colour string \<open>#rrggbb\<close>, \<open>hexToHsl\<close> gives hue, saturation
  and lightness, and \<open>hslToHex\<close> of these gives a colour string whose red, green and blue
  channels differ from the channels of the input by at most 1.  (In the arithmetic of the
  reals the channels come back unchanged, as the lemma \<open>roundtrip_exact\<close> shows; the
  tolerance of the claim leaves room for the rounding of doubles.)
\<close>

theorem hsl_roundtrip:
  assumes "validHex hex"
  shows "\<exists>h s l r g b r' g' b'.
           hexToHsl hex = Some (h, s, l) \<and> channels hex = Some (r, g, b)
         \<and> channels (hslToHex h s l) = Some (r', g', b')
         \<and> \<bar>int r' - int r\<bar> \<le> 1 \<and> \<bar>int g' - int g\<bar> \<le> 1 \<and> \<bar>int b' - int b\<bar> \<le> 1"
proof -
  from roundtrip_exact [OF assms] obtain h s l r g b where
    "hexToHsl hex = Some (h, s, l)" "channels hex = Some (r, g, b)"
    "channels (hslToHex h s l) = Some (r, g, b)"
    by blast
  then show ?thesis
    by (intro exI [of _ h] exI [of _ s] exI [of _ l] exI [of _ r] exI [of _ g] exI [of _ b]) simp
qed

theorem hsl_roundtrip_witness:
  "validHex ''#f7df1e''
   \<and> channels ''#f7df1e'' = Some (247, 223, 30)
   \<and> (\<exists>h s l r' g' b'.
         hexToHsl ''#f7df1e'' = Some (h, s, l)
       \<and> channels (hslToHex h s l) = Some (r', g', b')
       \<and> \<bar>int r' - 247\<bar> \<le> 1 \<and> \<bar>int g' - 223\<bar> \<le> 1 \<and> \<bar>int b' - 30\<bar> \<le> 1)"
proof -
  have v: "validHex ''#f7df1e''"
    by (simp add: validHex_def hexDigit_def)
  have c: "channels ''#f7df1e'' = Some (247, 223, 30)"
    by (simp add: channels_def slice_def parseInt16_def hexDigit_def)
  from hsl_roundtrip [OF v] c v show ?thesis by auto
qed

subsection \<open>The tree as a whole\<close>




lemma ctx_ok: "sceneOk s \<Longrightarrow> list_all accepted ops \<Longrightarrow> sceneOk (ctx ops s)"
  by (simp add: sceneOk_def ctx_def)
























lemma log10_nonneg: "1 \<le> x \<Longrightarrow> 0 \<le> log 10 x" for x :: real
  by simp

lemma tp_trunkLength_Num:
  assumes "repoSize data = Num sz" "0 \<le> sz"
  shows "tp_trunkLength (treeParams now data progress animationTime) =
           Num (min 180 (100 + log 10 (sz + 1) * 18) * progress)"
  using assms by (simp add: treeParams_def Let_def Math_min_Num)



































end
